theory Spec2Isabelle
  imports Complex_Main "HOL-Library.Signed_Division"
begin

section \<open>Heatmap telemetry\<close>

text \<open>
  The scripts are Enforce Script classes that extend (\<^verbatim>\<open>modded class\<close>) engine
  classes. Two of them are modelled here: \<^verbatim>\<open>eAIBase\<close> (an autonomous agent) and
  \<^verbatim>\<open>MissionServer\<close>; of \<^verbatim>\<open>ZombieBase\<close> only the collection it writes to appears, as a
  field of the aggregate. Each overridden callback is a function from the state before
  the call to the state after it. What the engine reports during a callback (position,
  clock, liveness) is an argument of the function. The \<^verbatim>\<open>super\<close> calls run engine code
  that is not part of the scripts and are left out.

  An Enforce \<^verbatim>\<open>int\<close> is an integer; \<^verbatim>\<open>/\<close> and \<^verbatim>\<open>%\<close> on integers truncate towards zero
  (\<open>sdiv\<close>, \<open>smod\<close>). An Enforce \<^verbatim>\<open>float\<close> is an IEEE 754 single-precision number; the
  next section models the two operations the scripts apply to the timers, \<^verbatim>\<open>+=\<close> and
  \<^verbatim>\<open>>=\<close>, with the rounding of every addition.
\<close>

section \<open>Single-precision floats\<close>

text \<open>
  A \<^verbatim>\<open>float\<close> is a finite number, an infinity or a NaN. The finite values are the real
  numbers \<open>n * 2 ^ (e - 23)\<close> with \<open>- 126 \<le> e \<le> 127\<close> and \<open>\<bar>n\<bar> < 2 ^ 24\<close>; the two zeros are
  not told apart (they compare equal, and the scripts only add and compare). The type
  below has a \<open>Finite\<close> value for every real; the engine only ever passes the ones that
  are floats, and every result of an addition is one, since it is rounded.
\<close>

datatype float = Finite real | PosInf | NegInf | NaN

text \<open>Rounding a real to the nearest integer, a tie going to the even one.\<close>

definition round_half_even :: "real \<Rightarrow> int" where
  "round_half_even q =
     (let n = \<lfloor>q\<rfloor>; d = q - of_int n
      in if d < 1 / 2 then n else if 1 / 2 < d then n + 1 else if even n then n else n + 1)"

text \<open>
  The binary exponent of a nonzero real \<open>x\<close>: the \<open>e\<close> with \<open>2 ^ e \<le> \<bar>x\<bar> < 2 ^ (e + 1)\<close>,
  but not below \<open>- 126\<close> (below \<open>2 ^ - 126\<close> the numbers are subnormal and share the
  exponent \<open>- 126\<close>) and not above 128. It is found by trying \<open>- 126, - 125, ...\<close> in turn.
\<close>

fun exponent_from :: "real \<Rightarrow> int \<Rightarrow> nat \<Rightarrow> int" where
  "exponent_from a e 0 = e"
| "exponent_from a e (Suc n) = (if a < 2 powi (e + 1) then e else exponent_from a (e + 1) n)"

definition float_exponent :: "real \<Rightarrow> int" where
  "float_exponent x = exponent_from \<bar>x\<bar> (- 126) 254"

text \<open>
  Rounding a real to a \<^verbatim>\<open>float\<close> (round to nearest, ties to even): the real is rounded
  to a multiple of \<open>2 ^ (e - 23)\<close>, the spacing of the floats at its exponent \<open>e\<close>; a
  result of magnitude \<open>2 ^ 128\<close> or more is an infinity.
\<close>

definition round_float :: "real \<Rightarrow> float" where
  "round_float x =
     (let ulp = 2 powi (float_exponent x - 23);
          r = of_int (round_half_even (x / ulp)) * ulp
      in if 2 powi 128 \<le> \<bar>r\<bar> then (if 0 < x then PosInf else NegInf) else Finite r)"

text \<open>The operator \<^verbatim>\<open>+\<close> on floats: the exact sum, rounded.\<close>

fun float_add :: "float \<Rightarrow> float \<Rightarrow> float" where
  "float_add NaN y = NaN"
| "float_add x NaN = NaN"
| "float_add PosInf NegInf = NaN"
| "float_add NegInf PosInf = NaN"
| "float_add PosInf y = PosInf"
| "float_add x PosInf = PosInf"
| "float_add NegInf y = NegInf"
| "float_add x NegInf = NegInf"
| "float_add (Finite a) (Finite b) = round_float (a + b)"

text \<open>The operator \<^verbatim>\<open>>=\<close> on floats; a comparison with a NaN is false.\<close>

fun float_ge :: "float \<Rightarrow> float \<Rightarrow> bool" where
  "float_ge NaN y = False"
| "float_ge x NaN = False"
| "float_ge PosInf y = True"
| "float_ge x NegInf = True"
| "float_ge NegInf y = False"
| "float_ge x PosInf = False"
| "float_ge (Finite a) (Finite b) = (b \<le> a)"

text \<open>\<^verbatim>\<open>float.MAX\<close>, the largest finite value, \<open>(2 ^ 24 - 1) * 2 ^ 104\<close>.\<close>

definition float_MAX :: float where
  "float_MAX = Finite 340282346638528859811704183484516925440"

text \<open>The value of a \<^verbatim>\<open>float\<close> variable that starts at \<open>a\<close> and has the values of a list
  added to it with \<^verbatim>\<open>+=\<close>, one after the other.\<close>

definition float_sum :: "float \<Rightarrow> float list \<Rightarrow> float" where
  "float_sum a ds = foldl float_add a ds"

section \<open>The aggregate and the agents' state\<close>

text \<open>
  A \<^verbatim>\<open>vector\<close> has three \<^verbatim>\<open>float\<close> components. The scripts copy them and overwrite the
  second with an \<^verbatim>\<open>int\<close> of magnitude below \<open>2 ^ 24\<close>, which converts without rounding;
  they are kept as real numbers.
\<close>

type_synonym vector = "real \<times> real \<times> real"

text \<open>
  An \<^verbatim>\<open>array<vector>\<close> is an object: the agent's field \<^verbatim>\<open>m_AIWayPoints\<close> and the entry
  that \<^verbatim>\<open>OnSelectPlayer\<close> inserts into \<^verbatim>\<open>HeatmapData.CURRENT_HEATMAP.m_AIWayPoints\<close> are
  two references to the same array. The store \<open>arrays\<close> maps a reference to the array's
  contents, \<open>next_ref\<close> is the next unused reference.

  The class \<^verbatim>\<open>HeatmapData\<close> is declared outside the scripts at hand; its three fields
  are the ones the scripts use. Its field \<^verbatim>\<open>m_AIWayPoints\<close> (an array of arrays) is named
  \<open>m_AIWayPoints_all\<close> here, to keep it apart from the agent's field of the same name.
\<close>

record HeatmapData =
  m_AIWayPoints_all :: "nat list"
  m_AIDeathPoints :: "vector list"
  m_ZombiePoints :: "vector list"

record world =
  arrays :: "nat \<Rightarrow> vector list"
  next_ref :: nat
  CURRENT_HEATMAP :: HeatmapData

text \<open>
  The constants \<^verbatim>\<open>g_Game.HEATMAP_TICK_TIME\<close> and \<^verbatim>\<open>g_Game.HEATMAP_TICK_TIME_VEHICLE\<close>
  are declared outside the scripts at hand: they are parameters of the model.
\<close>

record DayZGame =
  HEATMAP_TICK_TIME :: float
  HEATMAP_TICK_TIME_VEHICLE :: float

text \<open>What the engine answers while a callback runs: \<^verbatim>\<open>GetGame().GetTime()\<close> and
  \<^verbatim>\<open>GetGame().IsDedicatedServer()\<close> in every callback, the agent's own state in a callback
  of an agent, the calendar date in \<^verbatim>\<open>MissionServer.OnInit\<close>. Appending a \<^verbatim>\<open>float\<close>
  to a string is the engine's conversion too (\<open>float_to_string\<close>); \<^verbatim>\<open>OnInit\<close> uses it
  for one printed line only.\<close>

record game_env =
  GetTime :: int
  IsDedicatedServer :: bool

record entity_env = game_env +
  GetPosition :: vector
  IsPlayerSelected :: bool
  IsAlive :: bool
  IsInVehicle :: bool

record eAIBase =
  m_HeatmapTime :: float
  m_AIWayPoints :: "nat option"

text \<open>The field initialisers of \<^verbatim>\<open>eAIBase\<close>: the timer starts at \<^verbatim>\<open>float.MAX\<close>, the
  array reference at null.\<close>

definition eAIBase_new :: eAIBase where
  "eAIBase_new = \<lparr>m_HeatmapTime = float_MAX, m_AIWayPoints = None\<rparr>"

definition HeatmapData_new :: HeatmapData where
  "HeatmapData_new = \<lparr>m_AIWayPoints_all = [], m_AIDeathPoints = [], m_ZombiePoints = []\<rparr>"

definition world_new :: world where
  "world_new = \<lparr>arrays = (\<lambda>_. []), next_ref = 0, CURRENT_HEATMAP = HeatmapData_new\<rparr>"

section \<open>The agent: \<^verbatim>\<open>eAIBase\<close>\<close>

text \<open>\<^verbatim>\<open>GetWaypoint\<close>: the position, its second component overwritten with the game time
  in milliseconds divided (as integers) by 1000.\<close>

definition GetWaypoint :: "entity_env \<Rightarrow> vector" where
  "GetWaypoint env =
     (case GetPosition env of (x, y, z) \<Rightarrow> (x, real_of_int (GetTime env sdiv 1000), z))"

text \<open>\<^verbatim>\<open>array.Insert\<close> on the array behind a reference.\<close>

definition Insert_at :: "nat \<Rightarrow> vector \<Rightarrow> world \<Rightarrow> world" where
  "Insert_at r v w = w\<lparr>arrays := (arrays w)(r := arrays w r @ [v])\<rparr>"

definition OnSelectPlayer :: "entity_env \<Rightarrow> eAIBase \<times> world \<Rightarrow> eAIBase \<times> world" where
  "OnSelectPlayer env s =
     (case s of (e, w) \<Rightarrow>
        if IsDedicatedServer env then
          (let r = next_ref w;
               h = CURRENT_HEATMAP w
           in (e\<lparr>m_AIWayPoints := Some r\<rparr>,
               w\<lparr>arrays := (arrays w)(r := []),
                 next_ref := Suc r,
                 CURRENT_HEATMAP := h\<lparr>m_AIWayPoints_all := m_AIWayPoints_all h @ [r]\<rparr>\<rparr>))
        else (e, w))"

definition OnScheduledTick ::
  "DayZGame \<Rightarrow> entity_env \<Rightarrow> float \<Rightarrow> eAIBase \<times> world \<Rightarrow> eAIBase \<times> world" where
  "OnScheduledTick g env deltaTime s =
     (case s of (e, w) \<Rightarrow>
        (case m_AIWayPoints e of
           None \<Rightarrow> (e, w)
         | Some r \<Rightarrow>
             if \<not> IsPlayerSelected env \<or> \<not> IsAlive env then (e, w)
             else
               (let t = float_add (m_HeatmapTime e) deltaTime
                in if (float_ge t (HEATMAP_TICK_TIME_VEHICLE g) \<and> IsInVehicle env)
                      \<or> float_ge t (HEATMAP_TICK_TIME g)
                   then (e\<lparr>m_HeatmapTime := Finite 0\<rparr>, Insert_at r (GetWaypoint env) w)
                   else (e\<lparr>m_HeatmapTime := t\<rparr>, w))))"

definition EEKilled :: "entity_env \<Rightarrow> eAIBase \<times> world \<Rightarrow> eAIBase \<times> world" where
  "EEKilled env s =
     (case s of (e, w) \<Rightarrow>
        (case m_AIWayPoints e of
           None \<Rightarrow> (e, w)
         | Some r \<Rightarrow>
             (let w1 = Insert_at r (GetWaypoint env) w;
                  h = CURRENT_HEATMAP w1
              in (e, w1\<lparr>CURRENT_HEATMAP :=
                         h\<lparr>m_AIDeathPoints := m_AIDeathPoints h @ [GetWaypoint env]\<rparr>\<rparr>))))"

subsection \<open>Observing a tick\<close>

text \<open>The agent's trajectory: the contents of the array its field refers to (nothing
  while the field is null).\<close>

definition trajectory :: "eAIBase \<times> world \<Rightarrow> vector list" where
  "trajectory s =
     (case s of (e, w) \<Rightarrow> (case m_AIWayPoints e of None \<Rightarrow> [] | Some r \<Rightarrow> arrays w r))"

text \<open>A tick fires when it makes the trajectory one waypoint longer.\<close>

definition fires :: "DayZGame \<Rightarrow> entity_env \<Rightarrow> float \<Rightarrow> eAIBase \<times> world \<Rightarrow> bool" where
  "fires g env deltaTime s \<longleftrightarrow>
     length (trajectory (OnScheduledTick g env deltaTime s)) = Suc (length (trajectory s))"

text \<open>A tick is eligible when the guard at the head of \<^verbatim>\<open>OnScheduledTick\<close> lets it
  pass.\<close>

definition eligible :: "entity_env \<Rightarrow> bool" where
  "eligible env \<longleftrightarrow> IsPlayerSelected env \<and> IsAlive env"

text \<open>A sequence of scheduler ticks of one agent, each with the engine's answers and
  its \<^verbatim>\<open>deltaTime\<close>; \<open>fire_log\<close> records for each tick whether it fired.\<close>

fun run_ticks ::
  "DayZGame \<Rightarrow> (entity_env \<times> float) list \<Rightarrow> eAIBase \<times> world \<Rightarrow> eAIBase \<times> world" where
  "run_ticks g [] s = s"
| "run_ticks g (t # ts) s = run_ticks g ts (OnScheduledTick g (fst t) (snd t) s)"

fun fire_log ::
  "DayZGame \<Rightarrow> (entity_env \<times> float) list \<Rightarrow> eAIBase \<times> world \<Rightarrow> bool list" where
  "fire_log g [] s = []"
| "fire_log g (t # ts) s =
     fires g (fst t) (snd t) s # fire_log g ts (OnScheduledTick g (fst t) (snd t) s)"

text \<open>The threshold that applies to a tick, in the words of the specification: the
  special (vehicle) threshold in the special mobility state, the normal one otherwise.\<close>

definition applicable_threshold :: "DayZGame \<Rightarrow> entity_env \<Rightarrow> float" where
  "applicable_threshold g env =
     (if IsInVehicle env then HEATMAP_TICK_TIME_VEHICLE g else HEATMAP_TICK_TIME g)"

text \<open>The \<^verbatim>\<open>deltaTime\<close> values of the ticks at positions \<open>i, ..., j - 1\<close>, accumulated in
  a \<^verbatim>\<open>float\<close> that starts at \<open>a\<close>: each one is added with \<^verbatim>\<open>+=\<close>, in order.\<close>

definition accumulated :: "float \<Rightarrow> (entity_env \<times> float) list \<Rightarrow> nat \<Rightarrow> nat \<Rightarrow> float" where
  "accumulated a ts i j = float_sum a (map snd (take (j - i) (drop i ts)))"

section \<open>The mission: \<^verbatim>\<open>MissionServer\<close>\<close>

text \<open>
  The host as the mission's callbacks see and change it: the directories that exist,
  whether \<^verbatim>\<open>MakeDirectory\<close> is able to create one, the lines written by \<^verbatim>\<open>Print\<close>, and
  the calls of \<^verbatim>\<open>JsonFileLoader<HeatmapData>.JsonSaveFile\<close>, each with its path and the
  data it was given (the aggregate with every registered array read from the store).
\<close>

type_synonym heatmap_json = "vector list list \<times> vector list \<times> vector list"

record host =
  existing_dirs :: "string list"
  can_create_dirs :: bool
  printed :: "string list"
  json_saves :: "(string \<times> heatmap_json) list"

record init_env = game_env +
  GetDate :: "int \<times> int \<times> int \<times> int \<times> int"
  float_to_string :: "float \<Rightarrow> string"

record MissionServer =
  m_AutosaveTimer :: float
  m_SessionFileName :: string

definition HEATMAP_PROFILE_FOLDER :: string where
  "HEATMAP_PROFILE_FOLDER = ''$profile:Heatmap''"

definition AUTOSAVE_INTERVAL :: float where
  "AUTOSAVE_INTERVAL = Finite 120"

definition MissionServer_new :: MissionServer where
  "MissionServer_new = \<lparr>m_AutosaveTimer = Finite 0, m_SessionFileName = []\<rparr>"

subsection \<open>Engine functions\<close>

definition FileExist :: "string \<Rightarrow> host \<Rightarrow> bool" where
  "FileExist p h \<longleftrightarrow> p \<in> set (existing_dirs h)"

text \<open>\<^verbatim>\<open>MakeDirectory\<close> reports its success as a \<^verbatim>\<open>bool\<close>, which \<^verbatim>\<open>OnInit\<close> drops.\<close>

definition MakeDirectory :: "string \<Rightarrow> host \<Rightarrow> bool \<times> host" where
  "MakeDirectory p h =
     (if can_create_dirs h then (True, h\<lparr>existing_dirs := p # existing_dirs h\<rparr>)
      else (False, h))"

definition Print :: "string \<Rightarrow> host \<Rightarrow> host" where
  "Print msg h = h\<lparr>printed := printed h @ [msg]\<rparr>"

definition snapshot :: "world \<Rightarrow> heatmap_json" where
  "snapshot w =
     (let d = CURRENT_HEATMAP w
      in (map (arrays w) (m_AIWayPoints_all d), m_AIDeathPoints d, m_ZombiePoints d))"

definition JsonSaveFile :: "string \<Rightarrow> world \<Rightarrow> host \<Rightarrow> host" where
  "JsonSaveFile p w h = h\<lparr>json_saves := json_saves h @ [(p, snapshot w)]\<rparr>"

text \<open>Appending an \<^verbatim>\<open>int\<close> to a string writes it in decimal, without padding.\<close>

definition digit_char :: "nat \<Rightarrow> char" where
  "digit_char d = ''0123456789'' ! d"

fun nat_string :: "nat \<Rightarrow> string" where
  "nat_string n =
     (if n < 10 then [digit_char n] else nat_string (n div 10) @ [digit_char (n mod 10)])"

declare nat_string.simps [simp del]

definition int_string :: "int \<Rightarrow> string" where
  "int_string i = (if i < 0 then CHR ''-'' # nat_string (nat (- i)) else nat_string (nat i))"

subsection \<open>The callbacks\<close>

definition session_file_name :: "init_env \<Rightarrow> string" where
  "session_file_name env =
     (case GetDate env of (year, month, day, hour, minute) \<Rightarrow>
        (let second = GetTime env smod 60
         in HEATMAP_PROFILE_FOLDER @ ''/session_'' @ int_string year @ ''-''
              @ int_string month @ ''-'' @ int_string day @ ''_'' @ int_string hour @ ''-''
              @ int_string minute @ ''-'' @ int_string second @ ''_Heatmap.json''))"

definition OnInit :: "init_env \<Rightarrow> MissionServer \<times> host \<Rightarrow> MissionServer \<times> host" where
  "OnInit env s =
     (case s of (m, h) \<Rightarrow>
        (let h1 = (if \<not> FileExist HEATMAP_PROFILE_FOLDER h
                   then snd (MakeDirectory HEATMAP_PROFILE_FOLDER h) else h);
             m1 = m\<lparr>m_SessionFileName := session_file_name env\<rparr>;
             h2 = Print (''[Heatmap] Initialized - Session file: '' @ m_SessionFileName m1) h1;
             h3 = Print (''[Heatmap] Autosaving every ''
                           @ float_to_string env AUTOSAVE_INTERVAL @ '' seconds'') h2
         in (m1, h3)))"

definition SaveHeatmapData :: "world \<Rightarrow> MissionServer \<times> host \<Rightarrow> MissionServer \<times> host" where
  "SaveHeatmapData w s =
     (case s of (m, h) \<Rightarrow>
        if m_SessionFileName m \<noteq> [] then (m, JsonSaveFile (m_SessionFileName m) w h)
        else (m, h))"

definition OnUpdate :: "world \<Rightarrow> float \<Rightarrow> MissionServer \<times> host \<Rightarrow> MissionServer \<times> host" where
  "OnUpdate w timeslice s =
     (case s of (m, h) \<Rightarrow>
        (let m1 = m\<lparr>m_AutosaveTimer := float_add (m_AutosaveTimer m) timeslice\<rparr>
         in if float_ge (m_AutosaveTimer m1) AUTOSAVE_INTERVAL
            then (case SaveHeatmapData w (m1\<lparr>m_AutosaveTimer := Finite 0\<rparr>, h) of
                    (m2, h2) \<Rightarrow> (m2, Print ''[Heatmap] Auto-saved heatmap data'' h2))
            else (m1, h)))"

definition OnMissionFinish :: "world \<Rightarrow> MissionServer \<times> host \<Rightarrow> MissionServer \<times> host" where
  "OnMissionFinish w s =
     (case s of (m, h) \<Rightarrow>
        (case SaveHeatmapData w (m, Print ''[Heatmap] Saving heatmap data...'' h) of
           (m1, h1) \<Rightarrow>
             (m1, Print (''[Heatmap] Data saved successfully to: '' @ m_SessionFileName m1) h1)))"

text \<open>A sequence of mission ticks, each with the store and aggregate as they are when
  the tick runs, and its \<^verbatim>\<open>timeslice\<close>.\<close>

fun run_updates ::
  "(world \<times> float) list \<Rightarrow> MissionServer \<times> host \<Rightarrow> MissionServer \<times> host" where
  "run_updates [] s = s"
| "run_updates (t # ts) s = run_updates ts (OnUpdate (fst t) (snd t) s)"

section \<open>The server: callbacks in sequence\<close>

text \<open>
  The engine runs the callbacks one at a time on a single timeline. A server state holds
  the mission, the host, every agent (by an identifier) and the shared store with the
  aggregate; \<open>dispatch\<close> runs one callback on the part of the state it belongs to.
\<close>

datatype callback =
    Init init_env
  | Update float
  | Finish
  | Select nat entity_env
  | Tick nat entity_env float
  | Killed nat entity_env

record server =
  srv_mission :: MissionServer
  srv_host :: host
  srv_agents :: "nat \<Rightarrow> eAIBase"
  srv_world :: world

definition server_new :: "host \<Rightarrow> server" where
  "server_new h =
     \<lparr>srv_mission = MissionServer_new, srv_host = h,
      srv_agents = (\<lambda>_. eAIBase_new), srv_world = world_new\<rparr>"

definition on_mission ::
  "(MissionServer \<times> host \<Rightarrow> MissionServer \<times> host) \<Rightarrow> server \<Rightarrow> server" where
  "on_mission f s =
     (case f (srv_mission s, srv_host s) of (m, h) \<Rightarrow> s\<lparr>srv_mission := m, srv_host := h\<rparr>)"

definition on_agent ::
  "nat \<Rightarrow> (eAIBase \<times> world \<Rightarrow> eAIBase \<times> world) \<Rightarrow> server \<Rightarrow> server" where
  "on_agent i f s =
     (case f (srv_agents s i, srv_world s) of
        (e, w) \<Rightarrow> s\<lparr>srv_agents := (srv_agents s)(i := e), srv_world := w\<rparr>)"

fun dispatch :: "DayZGame \<Rightarrow> callback \<Rightarrow> server \<Rightarrow> server" where
  "dispatch g (Init env) s = on_mission (OnInit env) s"
| "dispatch g (Update timeslice) s = on_mission (OnUpdate (srv_world s) timeslice) s"
| "dispatch g Finish s = on_mission (OnMissionFinish (srv_world s)) s"
| "dispatch g (Select i env) s = on_agent i (OnSelectPlayer env) s"
| "dispatch g (Tick i env deltaTime) s = on_agent i (OnScheduledTick g env deltaTime) s"
| "dispatch g (Killed i env) s = on_agent i (EEKilled env) s"

fun run :: "DayZGame \<Rightarrow> callback list \<Rightarrow> server \<Rightarrow> server" where
  "run g [] s = s"
| "run g (c # cs) s = run g cs (dispatch g c s)"

text \<open>The trajectory of agent \<open>i\<close> in a server state.\<close>

definition agent_trajectory :: "nat \<Rightarrow> server \<Rightarrow> vector list" where
  "agent_trajectory i s = trajectory (srv_agents s i, srv_world s)"

text \<open>
  What the engine still calls once agent \<open>i\<close> has been killed: ticks of \<open>i\<close> report that
  it is not alive, and \<open>i\<close> is neither selected nor killed a second time. Callbacks of
  the mission and of other agents are not restricted.
\<close>

fun after_death :: "nat \<Rightarrow> callback \<Rightarrow> bool" where
  "after_death i (Tick j env deltaTime) = (j \<noteq> i \<or> \<not> IsAlive env)"
| "after_death i (Select j env) = (j \<noteq> i)"
| "after_death i (Killed j env) = (j \<noteq> i)"
| "after_death i c = True"

fun is_Init :: "callback \<Rightarrow> bool" where
  "is_Init (Init env) = True"
| "is_Init c = False"

text \<open>
  References are handed out in order by \<^verbatim>\<open>new\<close>: every reference an agent holds is below
  \<open>next_ref\<close>, and no two agents hold the same one.
\<close>

definition refs_ok :: "server \<Rightarrow> bool" where
  "refs_ok s \<longleftrightarrow>
     (\<forall>i r. m_AIWayPoints (srv_agents s i) = Some r \<longrightarrow> r < next_ref (srv_world s))
     \<and> (\<forall>i j r. m_AIWayPoints (srv_agents s i) = Some r
            \<and> m_AIWayPoints (srv_agents s j) = Some r \<longrightarrow> i = j)"

section \<open>Concrete inputs\<close>

text \<open>Thresholds of ten seconds on foot and two seconds in a vehicle.\<close>

definition ex_game :: DayZGame where
  "ex_game = \<lparr>HEATMAP_TICK_TIME = Finite 10, HEATMAP_TICK_TIME_VEHICLE = Finite 2\<rparr>"

text \<open>An agent at position \<open>(100, 7, 200)\<close>, 65 seconds into the game.\<close>

definition ex_env :: "bool \<Rightarrow> bool \<Rightarrow> bool \<Rightarrow> entity_env" where
  "ex_env selected alive vehicle =
     \<lparr>GetTime = 65000, IsDedicatedServer = True, GetPosition = (100, 7, 200),
      IsPlayerSelected = selected, IsAlive = alive, IsInVehicle = vehicle\<rparr>"

text \<open>A freshly created agent that has just been selected on a dedicated server.\<close>

definition ex_agent :: "eAIBase \<times> world" where
  "ex_agent = OnSelectPlayer (ex_env True True False) (eAIBase_new, world_new)"

text \<open>The same agent right after a sample: its timer is zero.\<close>

definition ex_sampled :: "eAIBase \<times> world" where
  "ex_sampled = OnScheduledTick ex_game (ex_env True True False) (Finite 1) ex_agent"

text \<open>
  Seven eligible ticks: three on foot of four seconds each, two in a vehicle of one
  second each, and two on foot of \<open>10 - 2 ^ - 20\<close> seconds (the float just below ten) and
  \<open>3 * 2 ^ - 22\<close> seconds. The last two add up to less than ten, and to ten when the sum
  is rounded.
\<close>

definition ex_below_ten :: float where
  "ex_below_ten = Finite (10 - 1 / 2 ^ 20)"

definition ex_rest :: float where
  "ex_rest = Finite (3 / 2 ^ 22)"

definition ex_ticks :: "(entity_env \<times> float) list" where
  "ex_ticks =
     [(ex_env True True False, Finite 4), (ex_env True True False, Finite 4),
      (ex_env True True False, Finite 4), (ex_env True True True, Finite 1),
      (ex_env True True True, Finite 1), (ex_env True True False, ex_below_ten),
      (ex_env True True False, ex_rest)]"

text \<open>Two agents are selected and sampled once each; agent 0 is then killed; afterwards
  the engine still ticks agent 0 (reporting it dead), agent 1 goes on being sampled,
  and the mission autosaves and finishes.\<close>

definition ex_before :: "callback list" where
  "ex_before =
     [Select 0 (ex_env True True False), Tick 0 (ex_env True True False) (Finite 1),
      Select 1 (ex_env True True True), Tick 1 (ex_env True True True) (Finite 1)]"

definition ex_after :: "callback list" where
  "ex_after =
     [Tick 0 (ex_env True False False) (Finite 1000), Tick 1 (ex_env True True True) (Finite 5),
      Update (Finite 120), Finish]"

text \<open>A host without the profile folder, and one that in addition cannot create it.\<close>

definition ex_host :: "bool \<Rightarrow> host" where
  "ex_host can = \<lparr>existing_dirs = [], can_create_dirs = can, printed = [], json_saves = []\<rparr>"

text \<open>Mission start on 2024-03-05 at 14:07, with the given game time in milliseconds.\<close>

definition ex_init :: "int \<Rightarrow> init_env" where
  "ex_init ms =
     \<lparr>GetTime = ms, IsDedicatedServer = True, GetDate = (2024, 3, 5, 14, 7),
      float_to_string = (\<lambda>_. ''120'')\<rparr>"

text \<open>
  Two timeslices: \<open>120 - 2 ^ - 17\<close> seconds (the float just below 120) and \<open>3 * 2 ^ - 19\<close>
  seconds. They add up to less than 120, and to 120 when the sum is rounded.
\<close>

definition ex_below_interval :: float where
  "ex_below_interval = Finite (120 - 1 / 2 ^ 17)"

definition ex_interval_rest :: float where
  "ex_interval_rest = Finite (3 / 2 ^ 19)"

text \<open>The mission after \<^verbatim>\<open>OnInit\<close>, five seconds into the game, and after
  \<^verbatim>\<open>OnMissionFinish\<close> following it, with an empty aggregate.\<close>

definition ex_started :: "MissionServer \<times> host" where
  "ex_started = OnInit (ex_init 5000) (MissionServer_new, ex_host True)"

definition ex_finished :: "MissionServer \<times> host" where
  "ex_finished = OnMissionFinish world_new ex_started"

section \<open>Rounding\<close>

lemma exponent_from_eq:
  assumes "e \<le> t" and "t \<le> e + int n" and "a < 2 powi (t + 1)" and "e < t \<longrightarrow> 2 powi t \<le> a"
  shows "exponent_from a e n = t"
  using assms
proof (induction n arbitrary: e)
  case 0
  then show ?case by simp
next
  case (Suc n)
  show ?case
  proof (cases "a < 2 powi (e + 1)")
    case True
    have "t = e"
    proof (rule ccontr)
      assume "t \<noteq> e"
      with Suc.prems have "e + 1 \<le> t" and "2 powi t \<le> a" by simp_all
      then have "(2::real) powi (e + 1) \<le> 2 powi t" by (intro power_int_increasing) simp_all
      with \<open>2 powi t \<le> a\<close> True show False by simp
    qed
    with True show ?thesis by simp
  next
    case False
    with Suc.prems(3) have "t \<noteq> e" by auto
    with Suc.prems have "e + 1 \<le> t" "t \<le> (e + 1) + int n" "e + 1 < t \<longrightarrow> 2 powi t \<le> a"
      by simp_all
    from Suc.IH [OF this(1,2) Suc.prems(3) this(3)] False show ?thesis by simp
  qed
qed

lemma exponent_from_top:
  "2 powi (e + int n) \<le> a \<Longrightarrow> exponent_from a e n = e + int n"
proof (induction n arbitrary: e)
  case 0
  then show ?case by simp
next
  case (Suc n)
  have "(2::real) powi (e + 1) \<le> 2 powi (e + int (Suc n))"
    by (intro power_int_increasing) simp_all
  with Suc.prems have "\<not> a < 2 powi (e + 1)" by simp
  moreover from Suc.prems have "2 powi ((e + 1) + int n) \<le> a" by (simp add: add.assoc)
  from Suc.IH [OF this] have "exponent_from a (e + 1) n = e + int (Suc n)" by simp
  ultimately show ?case by simp
qed

lemma float_exponent_normal:
  assumes "- 126 \<le> e" and "e \<le> 127" and "2 powi e \<le> \<bar>x\<bar>" and "\<bar>x\<bar> < 2 powi (e + 1)"
  shows "float_exponent x = e"
  unfolding float_exponent_def using assms by (intro exponent_from_eq) simp_all

lemma float_exponent_subnormal:
  assumes "\<bar>x\<bar> < 2 powi (- 125)"
  shows "float_exponent x = - 126"
  unfolding float_exponent_def using assms by (intro exponent_from_eq) simp_all

lemma float_exponent_overflow:
  assumes "2 powi 128 \<le> \<bar>x\<bar>"
  shows "float_exponent x = 128"
  unfolding float_exponent_def using assms exponent_from_top [of "- 126" 254 "\<bar>x\<bar>"] by simp

lemma round_half_even_of_int: "round_half_even (of_int n) = n"
  by (simp add: round_half_even_def)

lemma round_half_even_ge_floor: "\<lfloor>q\<rfloor> \<le> round_half_even q"
  by (simp add: round_half_even_def Let_def)

lemma round_float_exact:
  assumes "- 126 \<le> e" and "e \<le> 127" and "\<bar>x\<bar> < 2 powi (e + 1)"
    and "e = - 126 \<or> 2 powi e \<le> \<bar>x\<bar>"
    and "x = of_int n * 2 powi (e - 23)"
  shows "round_float x = Finite x"
proof -
  have ex: "float_exponent x = e"
  proof (cases "2 powi e \<le> \<bar>x\<bar>")
    case True
    with assms show ?thesis by (intro float_exponent_normal) simp_all
  next
    case False
    with assms have "e = - 126" by simp
    with assms(3) show ?thesis by (simp add: float_exponent_subnormal)
  qed
  have pos: "(2::real) powi (e - 23) \<noteq> 0" by simp
  have q: "x / 2 powi (e - 23) = of_int n" using assms(5) pos by simp
  have "(2::real) powi (e + 1) \<le> 2 powi 128" using assms(2) by (intro power_int_increasing) simp_all
  with assms(3) have small: "\<not> 2 powi 128 \<le> \<bar>x\<bar>" by simp
  have r: "of_int (round_half_even (x / 2 powi (e - 23))) * 2 powi (e - 23) = x"
    unfolding q round_half_even_of_int using assms(5) by simp
  show ?thesis
    unfolding round_float_def Let_def ex r using small by simp
qed


lemma round_half_even_down:
  assumes "of_int n \<le> q" and "q < of_int n + 1 / 2"
  shows "round_half_even q = n"
proof -
  from assms have "\<lfloor>q\<rfloor> = n" by (intro floor_unique) simp_all
  with assms show ?thesis by (simp add: round_half_even_def Let_def)
qed

lemma round_half_even_up:
  assumes "of_int n - 1 / 2 < q" and "q < of_int n"
  shows "round_half_even q = n"
proof -
  from assms have "\<lfloor>q\<rfloor> = n - 1" by (intro floor_unique) simp_all
  with assms show ?thesis by (simp add: round_half_even_def Let_def)
qed

lemma round_float_eq:
  assumes "- 126 \<le> e" and "e \<le> 127" and "\<bar>x\<bar> < 2 powi (e + 1)"
    and "e = - 126 \<or> 2 powi e \<le> \<bar>x\<bar>"
    and "round_half_even (x / 2 powi (e - 23)) = n"
    and "\<bar>of_int n * (2::real) powi (e - 23)\<bar> < 2 powi 128"
  shows "round_float x = Finite (of_int n * 2 powi (e - 23))"
proof -
  have ex: "float_exponent x = e"
  proof (cases "2 powi e \<le> \<bar>x\<bar>")
    case True
    with assms show ?thesis by (intro float_exponent_normal) simp_all
  next
    case False
    with assms have "e = - 126" by simp
    with assms(3) show ?thesis by (simp add: float_exponent_subnormal)
  qed
  from assms(6) have small: "\<not> 2 powi 128 \<le> \<bar>of_int n * (2::real) powi (e - 23)\<bar>" by simp
  show ?thesis
    unfolding round_float_def Let_def ex assms(5) using small by simp
qed

lemma float_ge_trans: "float_ge a b \<Longrightarrow> float_ge b c \<Longrightarrow> float_ge a c"
  by (cases a; cases b; cases c) simp_all


lemma round_float_lower:
  assumes "of_int k * 2 powi (e - 23) \<le> x" and ex: "float_exponent x = e" and "0 < x"
  shows "round_float x = PosInf
         \<or> (\<exists>r. round_float x = Finite r \<and> of_int k * 2 powi (e - 23) \<le> r)"
proof -
  let ?u = "(2::real) powi (e - 23)"
  let ?n = "round_half_even (x / ?u)"
  have u: "0 < ?u" by simp
  with assms(1) have "of_int k \<le> x / ?u" by (simp add: pos_le_divide_eq)
  then have "k \<le> \<lfloor>x / ?u\<rfloor>" by (simp only: le_floor_iff)
  with round_half_even_ge_floor [of "x / ?u"] have "k \<le> ?n" by linarith
  then have "of_int k \<le> (of_int ?n :: real)" by (simp only: of_int_le_iff)
  then have ge: "of_int k * ?u \<le> of_int ?n * ?u" using u by simp
  show ?thesis
    unfolding round_float_def Let_def ex using ge assms(3) by simp
qed

lemma round_float_ge_MAX:
  assumes "340282346638528859811704183484516925440 \<le> x"
  shows "round_float x = PosInf
         \<or> (\<exists>r. round_float x = Finite r \<and> 340282346638528859811704183484516925440 \<le> r)"
proof (cases "2 powi 128 \<le> x")
  case True
  then have ex: "float_exponent x = 128" by (intro float_exponent_overflow) simp
  have c: "of_int (2 ^ 23) * (2::real) powi (128 - 23) = 2 powi 128" by simp
  from True have "0 < x" by simp
  from round_float_lower [of "2 ^ 23" 128 x, unfolded c, OF True ex this]
  show ?thesis by auto
next
  case False
  with assms have ex: "float_exponent x = 127" by (intro float_exponent_normal) simp_all
  have c: "of_int (2 ^ 24 - 1) * (2::real) powi (127 - 23)
             = 340282346638528859811704183484516925440" by simp
  from assms have "0 < x" by simp
  from round_float_lower [of "2 ^ 24 - 1" 127 x, unfolded c, OF assms ex this]
  show ?thesis .
qed

lemma float_add_MAX_ge:
  assumes "float_ge d (Finite 0)" and "float_ge float_MAX c"
  shows "float_ge (float_add float_MAX d) c"
proof (cases d)
  case (Finite b)
  with assms(1) have "340282346638528859811704183484516925440
      \<le> 340282346638528859811704183484516925440 + b" by simp
  from round_float_ge_MAX [OF this]
  have "float_ge (round_float (340282346638528859811704183484516925440 + b)) float_MAX"
    by (auto simp: float_MAX_def)
  then have "float_ge (float_add float_MAX d) float_MAX" by (simp add: Finite float_MAX_def)
  from this assms(2) show ?thesis by (rule float_ge_trans)
next
  case PosInf
  with assms(2) show ?thesis by (cases c) (simp_all add: float_MAX_def)
next
  case NegInf
  with assms(1) show ?thesis by simp
next
  case NaN
  with assms(1) show ?thesis by simp
qed

subsection \<open>Sums used in the concrete inputs\<close>

lemma round_float_1: "round_float 1 = Finite 1"
  by (rule round_float_exact [where e = 0 and n = "2 ^ 23"]) simp_all

lemma round_float_2: "round_float 2 = Finite 2"
  by (rule round_float_exact [where e = 1 and n = "2 ^ 23"]) simp_all

lemma round_float_4: "round_float 4 = Finite 4"
  by (rule round_float_exact [where e = 2 and n = "2 ^ 23"]) simp_all

lemma round_float_5: "round_float 5 = Finite 5"
  by (rule round_float_exact [where e = 2 and n = "5 * 2 ^ 21"]) simp_all

lemma round_float_8: "round_float 8 = Finite 8"
  by (rule round_float_exact [where e = 3 and n = "2 ^ 23"]) simp_all

lemma round_float_12: "round_float 12 = Finite 12"
  by (rule round_float_exact [where e = 3 and n = "3 * 2 ^ 22"]) simp_all

lemma round_float_30: "round_float 30 = Finite 30"
  by (rule round_float_exact [where e = 4 and n = "15 * 2 ^ 20"]) simp_all

lemma round_float_50: "round_float 50 = Finite 50"
  by (rule round_float_exact [where e = 5 and n = "25 * 2 ^ 19"]) simp_all

lemma round_float_60: "round_float 60 = Finite 60"
  by (rule round_float_exact [where e = 5 and n = "15 * 2 ^ 20"]) simp_all

lemma round_float_90: "round_float 90 = Finite 90"
  by (rule round_float_exact [where e = 6 and n = "45 * 2 ^ 18"]) simp_all

lemma round_float_120: "round_float 120 = Finite 120"
  by (rule round_float_exact [where e = 6 and n = "15 * 2 ^ 20"]) simp_all

lemmas round_float_numerals =
  round_float_1 round_float_2 round_float_4 round_float_5 round_float_8 round_float_12
  round_float_30 round_float_50 round_float_60 round_float_90 round_float_120

text \<open>\<^verbatim>\<open>float.MAX + 1\<close> is \<^verbatim>\<open>float.MAX\<close>: one is far below half the spacing \<open>2 ^ 104\<close>.\<close>

lemma float_MAX_add_1: "float_add float_MAX (Finite 1) = float_MAX"
proof -
  have "round_half_even ((340282346638528859811704183484516925440 + 1) / 2 powi (127 - 23))
          = 2 ^ 24 - 1"
    by (rule round_half_even_down) simp_all
  then have "round_float (340282346638528859811704183484516925440 + 1)
          = Finite (of_int (2 ^ 24 - 1) * 2 powi (127 - 23))"
    by (intro round_float_eq) simp_all
  then show ?thesis by (simp add: float_MAX_def)
qed

lemma float_ge_MAX_10: "float_ge float_MAX (Finite 10)" "float_ge float_MAX (Finite 2)"
  by (simp_all add: float_MAX_def)

text \<open>The float just below ten, and what is left to ten after rounding.\<close>

lemma ex_below_ten_add: "float_add (Finite 0) ex_below_ten = ex_below_ten"
proof -
  have "round_float (10 - 1 / 2 ^ 20) = Finite (10 - 1 / 2 ^ 20)"
    by (rule round_float_exact [where e = 3 and n = "10 * 2 ^ 20 - 1"]) simp_all
  then show ?thesis by (simp add: ex_below_ten_def)
qed

lemma ex_below_ten_less: "\<not> float_ge ex_below_ten (Finite 10)"
  by (simp add: ex_below_ten_def)

lemma ex_rounds_to_ten: "float_add ex_below_ten ex_rest = Finite 10"
proof -
  have "round_half_even ((10 - 1 / 2 ^ 20 + 3 / 2 ^ 22) / 2 powi (3 - 23)) = 10 * 2 ^ 20"
    by (rule round_half_even_up) simp_all
  then have "round_float (10 - 1 / 2 ^ 20 + 3 / 2 ^ 22)
          = Finite (of_int (10 * 2 ^ 20) * 2 powi (3 - 23))"
    by (intro round_float_eq) simp_all
  then show ?thesis by (simp add: ex_below_ten_def ex_rest_def)
qed

text \<open>The float just below the autosave interval, and what is left to it after rounding.\<close>

lemma ex_below_interval_add: "float_add (Finite 0) ex_below_interval = ex_below_interval"
proof -
  have "round_float (120 - 1 / 2 ^ 17) = Finite (120 - 1 / 2 ^ 17)"
    by (rule round_float_exact [where e = 6 and n = "120 * 2 ^ 17 - 1"]) simp_all
  then show ?thesis by (simp add: ex_below_interval_def)
qed

lemma ex_below_interval_less: "\<not> float_ge ex_below_interval (Finite 120)"
  by (simp add: ex_below_interval_def)

lemma ex_rounds_to_interval: "float_add ex_below_interval ex_interval_rest = Finite 120"
proof -
  have "round_half_even ((120 - 1 / 2 ^ 17 + 3 / 2 ^ 19) / 2 powi (6 - 23)) = 120 * 2 ^ 17"
    by (rule round_half_even_up) simp_all
  then have "round_float (120 - 1 / 2 ^ 17 + 3 / 2 ^ 19)
          = Finite (of_int (120 * 2 ^ 17) * 2 powi (6 - 23))"
    by (intro round_float_eq) simp_all
  then show ?thesis by (simp add: ex_below_interval_def ex_interval_rest_def)
qed


section \<open>The throttle of an agent\<close>

lemma tick_ineligible:
  "m_AIWayPoints e = None \<or> \<not> IsPlayerSelected env \<or> \<not> IsAlive env
   \<Longrightarrow> OnScheduledTick g env dt (e, w) = (e, w)"
  by (auto simp: OnScheduledTick_def split: option.splits)

lemma tick_eligible:
  assumes "m_AIWayPoints e = Some r" and "eligible env"
  shows "OnScheduledTick g env dt (e, w) =
     (if (float_ge (float_add (m_HeatmapTime e) dt) (HEATMAP_TICK_TIME_VEHICLE g)
            \<and> IsInVehicle env)
          \<or> float_ge (float_add (m_HeatmapTime e) dt) (HEATMAP_TICK_TIME g)
      then (e\<lparr>m_HeatmapTime := Finite 0\<rparr>, Insert_at r (GetWaypoint env) w)
      else (e\<lparr>m_HeatmapTime := float_add (m_HeatmapTime e) dt\<rparr>, w))"
  using assms by (simp add: OnScheduledTick_def eligible_def Let_def)

lemma fires_ineligible:
  "m_AIWayPoints e = None \<or> \<not> IsPlayerSelected env \<or> \<not> IsAlive env
   \<Longrightarrow> \<not> fires g env dt (e, w)"
  by (simp add: fires_def tick_ineligible)

lemma fires_eligible:
  assumes "m_AIWayPoints e = Some r" and "eligible env"
  shows "fires g env dt (e, w) \<longleftrightarrow>
     (float_ge (float_add (m_HeatmapTime e) dt) (HEATMAP_TICK_TIME_VEHICLE g)
        \<and> IsInVehicle env)
       \<or> float_ge (float_add (m_HeatmapTime e) dt) (HEATMAP_TICK_TIME g)"
  using assms by (simp add: fires_def tick_eligible trajectory_def Insert_at_def)

lemma ex_agent_eq:
  "ex_agent =
     (\<lparr>m_HeatmapTime = float_MAX, m_AIWayPoints = Some 0\<rparr>,
      \<lparr>arrays = (\<lambda>_. []), next_ref = Suc 0,
       CURRENT_HEATMAP =
         \<lparr>m_AIWayPoints_all = [0], m_AIDeathPoints = [], m_ZombiePoints = []\<rparr>\<rparr>)"
  by (simp add: ex_agent_def OnSelectPlayer_def ex_env_def eAIBase_new_def world_new_def
      HeatmapData_new_def Let_def fun_eq_iff)

text \<open>
  Claim C8. A scheduler tick of an agent that is not alive, or not selected, does
  nothing: the state after the tick is the state before it (the timer included), and
  the tick does not fire. This holds for any number of such ticks in a row and for any
  \<^verbatim>\<open>deltaTime\<close> values.
\<close>

theorem ineligible_ticks_change_nothing:
  assumes "\<forall>t \<in> set ts. \<not> IsAlive (fst t) \<or> \<not> IsPlayerSelected (fst t)"
  shows "run_ticks g ts s = s \<and> fire_log g ts s = replicate (length ts) False"
  using assms
proof (induction ts)
  case Nil
  show ?case by simp
next
  case (Cons t ts)
  obtain e w where s: "s = (e, w)" by (cases s)
  from Cons.prems have bad: "\<not> IsAlive (fst t) \<or> \<not> IsPlayerSelected (fst t)" by simp
  then have "OnScheduledTick g (fst t) (snd t) s = s" "\<not> fires g (fst t) (snd t) s"
    unfolding s by (auto simp: tick_ineligible fires_ineligible)
  with Cons show ?case by simp
qed

theorem ineligible_ticks_change_nothing_witness:
  "\<not> IsAlive (ex_env True False False) \<and> \<not> IsPlayerSelected (ex_env False True True)
   \<and> run_ticks ex_game
         [(ex_env True False False, Finite 1000), (ex_env False True True, Finite 1000)]
         ex_agent = ex_agent
   \<and> fire_log ex_game
         [(ex_env True False False, Finite 1000), (ex_env False True True, Finite 1000)]
         ex_agent = [False, False]"
  using ineligible_ticks_change_nothing
    [of "[(ex_env True False False, Finite 1000), (ex_env False True True, Finite 1000)]"
      ex_game ex_agent]
  by (simp add: ex_env_def)

lemma run_ticks_append: "run_ticks g (xs @ ys) s = run_ticks g ys (run_ticks g xs s)"
  by (induction xs arbitrary: s) simp_all

lemma length_fire_log: "length (fire_log g ts s) = length ts"
  by (induction ts arbitrary: s) simp_all

lemma fire_log_nth:
  "k < length ts \<Longrightarrow>
   fire_log g ts s ! k = fires g (fst (ts ! k)) (snd (ts ! k)) (run_ticks g (take k ts) s)"
proof (induction ts arbitrary: s k)
  case Nil
  then show ?case by simp
next
  case (Cons t ts)
  show ?case
  proof (cases k)
    case 0
    then show ?thesis by simp
  next
    case (Suc n)
    with Cons.prems have "n < length ts" by simp
    from Cons.IH [OF this] show ?thesis by (simp add: Suc)
  qed
qed

lemma tick_keeps_ref: "m_AIWayPoints (fst (OnScheduledTick g env dt s)) = m_AIWayPoints (fst s)"
  by (cases s) (simp add: OnScheduledTick_def Let_def split: option.splits)

lemma run_ticks_keeps_ref: "m_AIWayPoints (fst (run_ticks g ts s)) = m_AIWayPoints (fst s)"
  by (induction ts arbitrary: s) (simp_all add: tick_keeps_ref)

lemma fires_timer_zero:
  "fires g env dt s \<Longrightarrow> m_HeatmapTime (fst (OnScheduledTick g env dt s)) = Finite 0"
  by (cases s)
    (auto simp: fires_def OnScheduledTick_def trajectory_def Let_def split: option.splits if_splits)

lemma quiet_tick_timer:
  assumes "m_AIWayPoints (fst s) = Some r" and "eligible env" and "\<not> fires g env dt s"
  shows "m_HeatmapTime (fst (OnScheduledTick g env dt s)) = float_add (m_HeatmapTime (fst s)) dt"
proof -
  obtain e w where s: "s = (e, w)" by (cases s)
  from assms show ?thesis
    unfolding s by (auto simp: fires_eligible [of e r env] tick_eligible [of e r env])
qed

lemma accumulated_same: "accumulated a ts i i = a"
  by (simp add: accumulated_def float_sum_def)

lemma accumulated_Suc:
  assumes "i \<le> k" and "k < length ts"
  shows "accumulated a ts i (Suc k) = float_add (accumulated a ts i k) (snd (ts ! k))"
proof -
  from assms have "Suc k - i = Suc (k - i)" and "k - i < length (drop i ts)" by simp_all
  then have "take (Suc k - i) (drop i ts) = take (k - i) (drop i ts) @ [drop i ts ! (k - i)]"
    by (simp add: take_Suc_conv_app_nth)
  moreover from assms have "drop i ts ! (k - i) = ts ! k" by simp
  ultimately show ?thesis by (simp add: accumulated_def float_sum_def)
qed

lemma quiet_segment_timer:
  assumes ref: "m_AIWayPoints (fst s) = Some r"
    and el: "\<forall>t \<in> set ts. eligible (fst t)"
    and "i \<le> k" and "k \<le> length ts"
    and quiet: "\<forall>j. i \<le> j \<and> j < k \<longrightarrow> \<not> fire_log g ts s ! j"
  shows "m_HeatmapTime (fst (run_ticks g (take k ts) s))
           = accumulated (m_HeatmapTime (fst (run_ticks g (take i ts) s))) ts i k"
  using \<open>i \<le> k\<close> \<open>k \<le> length ts\<close> quiet
proof (induction k)
  case 0
  then show ?case by (simp add: accumulated_same)
next
  case (Suc k)
  show ?case
  proof (cases "i = Suc k")
    case True
    then show ?thesis by (simp add: accumulated_same)
  next
    case False
    with Suc.prems have ik: "i \<le> k" and kl: "k < length ts" by simp_all
    from Suc.prems have "\<forall>j. i \<le> j \<and> j < k \<longrightarrow> \<not> fire_log g ts s ! j" by simp
    with Suc.IH ik kl have IH: "m_HeatmapTime (fst (run_ticks g (take k ts) s))
           = accumulated (m_HeatmapTime (fst (run_ticks g (take i ts) s))) ts i k" by simp
    let ?sk = "run_ticks g (take k ts) s"
    from Suc.prems ik have "\<not> fire_log g ts s ! k" by simp
    with kl have nf: "\<not> fires g (fst (ts ! k)) (snd (ts ! k)) ?sk" by (simp add: fire_log_nth)
    from kl el have elk: "eligible (fst (ts ! k))" by simp
    have refk: "m_AIWayPoints (fst ?sk) = Some r" by (simp add: run_ticks_keeps_ref ref)
    from kl have "take (Suc k) ts = take k ts @ [ts ! k]" by (simp add: take_Suc_conv_app_nth)
    then have "run_ticks g (take (Suc k) ts) s = OnScheduledTick g (fst (ts ! k)) (snd (ts ! k)) ?sk"
      by (simp add: run_ticks_append)
    with quiet_tick_timer [OF refk elk nf] IH accumulated_Suc [OF ik kl] show ?thesis by simp
  qed
qed

lemma reached_iff_applicable:
  assumes "float_ge (HEATMAP_TICK_TIME g) (HEATMAP_TICK_TIME_VEHICLE g)"
  shows "(float_ge t (HEATMAP_TICK_TIME_VEHICLE g) \<and> IsInVehicle env)
           \<or> float_ge t (HEATMAP_TICK_TIME g)
         \<longleftrightarrow> float_ge t (applicable_threshold g env)"
  using assms float_ge_trans [of t "HEATMAP_TICK_TIME g" "HEATMAP_TICK_TIME_VEHICLE g"]
  by (auto simp: applicable_threshold_def)

lemma fire_log_nth_iff:
  assumes ref: "m_AIWayPoints (fst s) = Some r"
    and el: "\<forall>t \<in> set ts. eligible (fst t)"
    and "i \<le> k" and "k < length ts"
    and quiet: "\<forall>j. i \<le> j \<and> j < k \<longrightarrow> \<not> fire_log g ts s ! j"
  shows "fire_log g ts s ! k \<longleftrightarrow>
     (let t = accumulated (m_HeatmapTime (fst (run_ticks g (take i ts) s))) ts i (Suc k)
      in (float_ge t (HEATMAP_TICK_TIME_VEHICLE g) \<and> IsInVehicle (fst (ts ! k)))
           \<or> float_ge t (HEATMAP_TICK_TIME g))"
proof -
  let ?sk = "run_ticks g (take k ts) s"
  obtain e w where sk: "?sk = (e, w)" by (cases ?sk)
  have "m_AIWayPoints (fst ?sk) = Some r" by (simp add: run_ticks_keeps_ref ref)
  then have refk: "m_AIWayPoints e = Some r" by (simp add: sk)
  from \<open>k < length ts\<close> el have elk: "eligible (fst (ts ! k))" by simp
  from \<open>k < length ts\<close> have kl: "k \<le> length ts" by simp
  have "m_HeatmapTime e
          = accumulated (m_HeatmapTime (fst (run_ticks g (take i ts) s))) ts i k"
    using quiet_segment_timer [OF ref el \<open>i \<le> k\<close> kl quiet] by (simp add: sk)
  then show ?thesis
    using fires_eligible [OF refk elk, of g "snd (ts ! k)" w]
      accumulated_Suc [OF \<open>i \<le> k\<close> \<open>k < length ts\<close>]
    by (simp add: fire_log_nth [OF \<open>k < length ts\<close>] sk Let_def)
qed

lemma timer_zero_after_fire:
  assumes "k < length ts" and "fire_log g ts s ! k"
  shows "m_HeatmapTime (fst (run_ticks g (take (Suc k) ts) s)) = Finite 0"
proof -
  from assms have f: "fires g (fst (ts ! k)) (snd (ts ! k)) (run_ticks g (take k ts) s)"
    by (simp add: fire_log_nth)
  from assms have "take (Suc k) ts = take k ts @ [ts ! k]" by (simp add: take_Suc_conv_app_nth)
  then show ?thesis using fires_timer_zero [OF f] by (simp add: run_ticks_append)
qed

lemma fire_after_fire_iff:
  assumes ref: "m_AIWayPoints (fst s) = Some r"
    and el: "\<forall>t \<in> set ts. eligible (fst t)"
    and "i < k" and "k < length ts"
    and fi: "fire_log g ts s ! i"
    and quiet: "\<forall>j. i < j \<and> j < k \<longrightarrow> \<not> fire_log g ts s ! j"
  shows "fire_log g ts s ! k \<longleftrightarrow>
     (float_ge (accumulated (Finite 0) ts (Suc i) (Suc k)) (HEATMAP_TICK_TIME_VEHICLE g)
        \<and> IsInVehicle (fst (ts ! k)))
       \<or> float_ge (accumulated (Finite 0) ts (Suc i) (Suc k)) (HEATMAP_TICK_TIME g)"
proof -
  from \<open>i < k\<close> \<open>k < length ts\<close> have il: "i < length ts" and ik: "Suc i \<le> k" by simp_all
  from quiet have q: "\<forall>j. Suc i \<le> j \<and> j < k \<longrightarrow> \<not> fire_log g ts s ! j" by simp
  show ?thesis
    using fire_log_nth_iff [OF ref el ik \<open>k < length ts\<close> q] timer_zero_after_fire [OF il fi]
    by (simp add: Let_def)
qed

lemma ex_sampled_eq:
  "ex_sampled =
     (\<lparr>m_HeatmapTime = Finite 0, m_AIWayPoints = Some 0\<rparr>,
      \<lparr>arrays = (\<lambda>_. [])(0 := [(100, 65, 200)]), next_ref = Suc 0,
       CURRENT_HEATMAP =
         \<lparr>m_AIWayPoints_all = [0], m_AIDeathPoints = [], m_ZombiePoints = []\<rparr>\<rparr>)"
  by (simp add: ex_sampled_def ex_agent_eq OnScheduledTick_def ex_env_def ex_game_def
      float_MAX_add_1 float_ge_MAX_10 Insert_at_def GetWaypoint_def Let_def
      signed_divide_int_def)

lemma ex_fire_log:
  "fire_log ex_game ex_ticks ex_sampled = [False, False, True, False, True, False, True]"
  by (simp add: ex_ticks_def ex_sampled_eq fires_def OnScheduledTick_def trajectory_def
      ex_env_def ex_game_def Insert_at_def Let_def round_float_numerals
      ex_below_ten_add ex_below_ten_less ex_rounds_to_ten)

lemma ex_ticks_eligible: "\<forall>t \<in> set ex_ticks. eligible (fst t)"
  by (simp add: ex_ticks_def eligible_def ex_env_def)

lemma ex_quiet_3:
  "\<forall>j. 2 < j \<and> j < 4 \<longrightarrow> \<not> fire_log ex_game ex_ticks ex_sampled ! j"
proof (intro allI impI)
  fix j :: nat
  assume "2 < j \<and> j < 4"
  then have "j = 3" by simp
  then show "\<not> fire_log ex_game ex_ticks ex_sampled ! j" by (simp add: ex_fire_log)
qed


lemma ex_accumulated:
  "accumulated (Finite 0) ex_ticks 3 4 = Finite 1"
  "accumulated (Finite 0) ex_ticks 3 5 = Finite 2"
  "accumulated (Finite 0) ex_ticks 5 6 = ex_below_ten"
  "accumulated (Finite 0) ex_ticks 5 7 = Finite 10"
  by (simp_all add: accumulated_def float_sum_def ex_ticks_def round_float_numerals
      ex_below_ten_add ex_rounds_to_ten)

text \<open>
  Claim C1, as the code has it. Take an agent with an array (its field \<^verbatim>\<open>m_AIWayPoints\<close>
  is not null), a vehicle threshold that is at most the normal threshold, and any finite
  sequence of eligible ticks. The threshold that applies to a tick is the vehicle
  threshold when the agent is in a vehicle at that tick, and the normal one otherwise.
  The cumulative sum is the one the timer holds: the \<^verbatim>\<open>deltaTime\<close> values added one
  after the other in single precision, each addition rounded.
  \<^item> A tick \<open>k\<close> that follows a fire at tick \<open>i\<close>, with no fire in between, fires if and
    only if the \<^verbatim>\<open>deltaTime\<close> values of the ticks \<open>i + 1, ..., k\<close>, accumulated from zero,
    reach the threshold that applies to tick \<open>k\<close>, and did not reach the threshold that
    applied to any tick in between.
  \<^item> A tick \<open>k\<close> with no fire before it fires if and only if the \<^verbatim>\<open>deltaTime\<close> values of
    the ticks \<open>0, ..., k\<close>, accumulated from the value the timer started with, reach the
    threshold that applies to tick \<open>k\<close>, and did not at any earlier tick. The timer of a
    new agent starts at \<^verbatim>\<open>float.MAX\<close>, not at zero: its first eligible tick fires, whenever
    the \<^verbatim>\<open>deltaTime\<close> is not negative and the normal threshold is at most \<^verbatim>\<open>float.MAX\<close>.
  \<^item> Right after a tick that fired, the timer is exactly zero.
\<close>

theorem throttle_fires_when_sum_first_reaches_threshold:
  assumes ref: "m_AIWayPoints (fst s) = Some r"
    and el: "\<forall>t \<in> set ts. eligible (fst t)"
    and vn: "float_ge (HEATMAP_TICK_TIME g) (HEATMAP_TICK_TIME_VEHICLE g)"
    and kl: "k < length ts"
  shows "((\<forall>j<k. \<not> fire_log g ts s ! j) \<longrightarrow>
            (fire_log g ts s ! k \<longleftrightarrow>
               float_ge (accumulated (m_HeatmapTime (fst s)) ts 0 (Suc k))
                  (applicable_threshold g (fst (ts ! k)))
               \<and> (\<forall>j<k. \<not> float_ge (accumulated (m_HeatmapTime (fst s)) ts 0 (Suc j))
                            (applicable_threshold g (fst (ts ! j))))))
       \<and> (\<forall>i<k. fire_log g ts s ! i \<and> (\<forall>j. i < j \<and> j < k \<longrightarrow> \<not> fire_log g ts s ! j) \<longrightarrow>
            (fire_log g ts s ! k \<longleftrightarrow>
               float_ge (accumulated (Finite 0) ts (Suc i) (Suc k))
                  (applicable_threshold g (fst (ts ! k)))
               \<and> (\<forall>j. i < j \<and> j < k \<longrightarrow>
                     \<not> float_ge (accumulated (Finite 0) ts (Suc i) (Suc j))
                          (applicable_threshold g (fst (ts ! j))))))
       \<and> (fire_log g ts s ! k \<longrightarrow>
            m_HeatmapTime (fst (run_ticks g (take (Suc k) ts) s)) = Finite 0)
       \<and> (m_HeatmapTime (fst s) = float_MAX \<and> float_ge float_MAX (HEATMAP_TICK_TIME g)
            \<and> float_ge (snd (ts ! 0)) (Finite 0) \<longrightarrow> fire_log g ts s ! 0)"
proof (intro conjI impI allI)
  assume quiet: "\<forall>j<k. \<not> fire_log g ts s ! j"
  have first: "\<And>j. j \<le> k \<Longrightarrow> fire_log g ts s ! j \<longleftrightarrow>
      float_ge (accumulated (m_HeatmapTime (fst s)) ts 0 (Suc j))
        (applicable_threshold g (fst (ts ! j)))"
  proof -
    fix j assume "j \<le> k"
    with kl have jl: "j < length ts" by simp
    from quiet \<open>j \<le> k\<close> have q: "\<forall>j'. 0 \<le> j' \<and> j' < j \<longrightarrow> \<not> fire_log g ts s ! j'" by simp
    show "fire_log g ts s ! j \<longleftrightarrow>
      float_ge (accumulated (m_HeatmapTime (fst s)) ts 0 (Suc j))
        (applicable_threshold g (fst (ts ! j)))"
      using fire_log_nth_iff [OF ref el le0 jl q] reached_iff_applicable [OF vn]
      by (simp add: Let_def)
  qed
  from first [of k] first quiet
  show "fire_log g ts s ! k \<longleftrightarrow>
               float_ge (accumulated (m_HeatmapTime (fst s)) ts 0 (Suc k))
                  (applicable_threshold g (fst (ts ! k)))
               \<and> (\<forall>j<k. \<not> float_ge (accumulated (m_HeatmapTime (fst s)) ts 0 (Suc j))
                            (applicable_threshold g (fst (ts ! j))))"
    by auto
next
  fix i
  assume "i < k"
    and h: "fire_log g ts s ! i \<and> (\<forall>j. i < j \<and> j < k \<longrightarrow> \<not> fire_log g ts s ! j)"
  then have fi: "fire_log g ts s ! i"
    and quiet: "\<forall>j. i < j \<and> j < k \<longrightarrow> \<not> fire_log g ts s ! j" by simp_all
  have later: "\<And>j. i < j \<Longrightarrow> j \<le> k \<Longrightarrow> fire_log g ts s ! j \<longleftrightarrow>
      float_ge (accumulated (Finite 0) ts (Suc i) (Suc j))
        (applicable_threshold g (fst (ts ! j)))"
  proof -
    fix j assume "i < j" "j \<le> k"
    with kl have jl: "j < length ts" by simp
    from quiet \<open>j \<le> k\<close> have q: "\<forall>j'. i < j' \<and> j' < j \<longrightarrow> \<not> fire_log g ts s ! j'" by simp
    show "fire_log g ts s ! j \<longleftrightarrow>
      float_ge (accumulated (Finite 0) ts (Suc i) (Suc j))
        (applicable_threshold g (fst (ts ! j)))"
      using fire_after_fire_iff [OF ref el \<open>i < j\<close> jl fi q] reached_iff_applicable [OF vn]
      by simp
  qed
  from later [of k] later quiet \<open>i < k\<close>
  show "fire_log g ts s ! k \<longleftrightarrow>
               float_ge (accumulated (Finite 0) ts (Suc i) (Suc k))
                  (applicable_threshold g (fst (ts ! k)))
               \<and> (\<forall>j. i < j \<and> j < k \<longrightarrow>
                     \<not> float_ge (accumulated (Finite 0) ts (Suc i) (Suc j))
                          (applicable_threshold g (fst (ts ! j))))"
    by auto
next
  assume "fire_log g ts s ! k"
  with kl show "m_HeatmapTime (fst (run_ticks g (take (Suc k) ts) s)) = Finite 0"
    by (rule timer_zero_after_fire)
next
  assume h: "m_HeatmapTime (fst s) = float_MAX \<and> float_ge float_MAX (HEATMAP_TICK_TIME g)
            \<and> float_ge (snd (ts ! 0)) (Finite 0)"
  from kl have l0: "0 < length ts" by (cases ts) simp_all
  have "accumulated float_MAX ts 0 (Suc 0) = float_add float_MAX (snd (ts ! 0))"
    using accumulated_Suc [of 0 0 ts] l0 by (simp add: accumulated_same)
  moreover from h have "float_ge (float_add float_MAX (snd (ts ! 0))) (HEATMAP_TICK_TIME g)"
    by (intro float_add_MAX_ge) simp_all
  moreover have "\<forall>j. (0::nat) \<le> j \<and> j < 0 \<longrightarrow> \<not> fire_log g ts s ! j" by auto
  ultimately show "fire_log g ts s ! 0"
    using h fire_log_nth_iff [OF ref el le_refl l0, of g] by (simp add: Let_def)
qed

theorem throttle_fires_when_sum_first_reaches_threshold_witness:
  "fire_log ex_game ex_ticks ex_sampled ! 2
   \<and> fire_log ex_game ex_ticks ex_sampled ! 4
   \<and> float_ge (accumulated (Finite 0) ex_ticks (Suc 2) (Suc 4))
        (applicable_threshold ex_game (fst (ex_ticks ! 4)))
   \<and> accumulated (Finite 0) ex_ticks 3 4 = Finite 1
   \<and> accumulated (Finite 0) ex_ticks 3 5 = Finite 2
   \<and> applicable_threshold ex_game (fst (ex_ticks ! 4)) = Finite 2
   \<and> m_HeatmapTime (fst (run_ticks ex_game (take 5 ex_ticks) ex_sampled)) = Finite 0
   \<and> m_HeatmapTime (fst ex_agent) = float_MAX
   \<and> fire_log ex_game ex_ticks ex_agent ! 0"
proof -
  have ref: "m_AIWayPoints (fst ex_sampled) = Some 0" by (simp add: ex_sampled_eq)
  have ref0: "m_AIWayPoints (fst ex_agent) = Some 0" by (simp add: ex_agent_eq)
  have vn: "float_ge (HEATMAP_TICK_TIME ex_game) (HEATMAP_TICK_TIME_VEHICLE ex_game)"
    by (simp add: ex_game_def)
  have k4: "4 < length ex_ticks" and k0: "0 < length ex_ticks" by (simp_all add: ex_ticks_def)
  have f2: "fire_log ex_game ex_ticks ex_sampled ! 2"
    and f4: "fire_log ex_game ex_ticks ex_sampled ! 4" by (simp_all add: ex_fire_log)
  have thr: "applicable_threshold ex_game (fst (ex_ticks ! 4)) = Finite 2"
    by (simp add: applicable_threshold_def ex_ticks_def ex_env_def ex_game_def)
  have start: "m_HeatmapTime (fst ex_agent) = float_MAX" by (simp add: ex_agent_eq)
  have pos: "float_ge float_MAX (HEATMAP_TICK_TIME ex_game)"
    "float_ge (snd (ex_ticks ! 0)) (Finite 0)"
    by (simp_all add: ex_game_def float_MAX_def ex_ticks_def)
  note main = throttle_fires_when_sum_first_reaches_threshold
  from main [OF ref ex_ticks_eligible vn k4, THEN conjunct2, THEN conjunct1, rule_format, of 2]
    f2 f4 ex_quiet_3
  have reach:
    "float_ge (accumulated (Finite 0) ex_ticks (Suc 2) (Suc 4))
       (applicable_threshold ex_game (fst (ex_ticks ! 4)))"
    by simp
  from main [OF ref ex_ticks_eligible vn k4, THEN conjunct2, THEN conjunct2, THEN conjunct1] f4
  have zero: "m_HeatmapTime (fst (run_ticks ex_game (take 5 ex_ticks) ex_sampled)) = Finite 0"
    by simp
  from main [OF ref0 ex_ticks_eligible vn k0, THEN conjunct2, THEN conjunct2, THEN conjunct2]
    start pos
  have first: "fire_log ex_game ex_ticks ex_agent ! 0" by blast
  from f2 f4 reach ex_accumulated(1,2) thr zero start first show ?thesis by simp
qed

text \<open>
  The claim as written fails for an agent that has never fired: it counts the sum from
  zero at session start. The new agent below has an empty trajectory; its first eligible
  tick, on foot with a \<^verbatim>\<open>deltaTime\<close> of one second, fires, although one second counted
  from zero is below the normal threshold of ten.
\<close>

theorem new_agent_fires_below_threshold:
  "trajectory ex_agent = []
   \<and> fire_log ex_game [(ex_env True True False, Finite 1)] ex_agent ! 0
   \<and> accumulated (Finite 0) [(ex_env True True False, Finite 1)] 0 1 = Finite 1
   \<and> \<not> float_ge (accumulated (Finite 0) [(ex_env True True False, Finite 1)] 0 1)
          (applicable_threshold ex_game (ex_env True True False))"
  by (simp add: ex_agent_eq trajectory_def fires_def OnScheduledTick_def ex_env_def ex_game_def
      float_MAX_add_1 float_ge_MAX_10 Insert_at_def Let_def accumulated_def float_sum_def
      applicable_threshold_def round_float_numerals)



section \<open>Death of an agent\<close>

lemma killed_with_array:
  assumes "m_AIWayPoints e = Some r"
  shows "EEKilled env (e, w) =
     (e, w\<lparr>arrays := (arrays w)(r := arrays w r @ [GetWaypoint env]),
           CURRENT_HEATMAP := (CURRENT_HEATMAP w)
             \<lparr>m_AIDeathPoints := m_AIDeathPoints (CURRENT_HEATMAP w) @ [GetWaypoint env]\<rparr>\<rparr>)"
  using assms by (simp add: EEKilled_def Insert_at_def Let_def)

lemma killed_without_array: "m_AIWayPoints e = None \<Longrightarrow> EEKilled env (e, w) = (e, w)"
  by (simp add: EEKilled_def)

text \<open>
  Claim C6. When an agent is killed and holds an array (its trajectory), exactly one
  waypoint is appended to that array and the same waypoint is appended to
  \<^verbatim>\<open>m_AIDeathPoints\<close> of the aggregate; the agent's own fields, every other array, the
  list of registered arrays and \<^verbatim>\<open>m_ZombiePoints\<close> stay as they are. When the agent holds
  no array, \<^verbatim>\<open>EEKilled\<close> changes nothing.
\<close>

theorem death_appends_final_waypoint:
  "(m_AIWayPoints e = Some r \<longrightarrow>
      fst (EEKilled env (e, w)) = e
      \<and> trajectory (EEKilled env (e, w)) = trajectory (e, w) @ [GetWaypoint env]
      \<and> m_AIDeathPoints (CURRENT_HEATMAP (snd (EEKilled env (e, w))))
          = m_AIDeathPoints (CURRENT_HEATMAP w) @ [GetWaypoint env]
      \<and> (\<forall>r'. r' \<noteq> r \<longrightarrow> arrays (snd (EEKilled env (e, w))) r' = arrays w r')
      \<and> m_AIWayPoints_all (CURRENT_HEATMAP (snd (EEKilled env (e, w))))
          = m_AIWayPoints_all (CURRENT_HEATMAP w)
      \<and> m_ZombiePoints (CURRENT_HEATMAP (snd (EEKilled env (e, w))))
          = m_ZombiePoints (CURRENT_HEATMAP w)
      \<and> next_ref (snd (EEKilled env (e, w))) = next_ref w)
   \<and> (m_AIWayPoints e = None \<longrightarrow> EEKilled env (e, w) = (e, w))"
  by (simp add: killed_with_array killed_without_array trajectory_def)

theorem death_appends_final_waypoint_witness:
  "m_AIWayPoints (fst ex_sampled) = Some 0
   \<and> trajectory ex_sampled = [(100, 65, 200)]
   \<and> trajectory (EEKilled (ex_env True False False) ex_sampled) = [(100, 65, 200), (100, 65, 200)]
   \<and> m_AIDeathPoints (CURRENT_HEATMAP (snd (EEKilled (ex_env True False False) ex_sampled)))
        = [(100, 65, 200)]
   \<and> m_AIWayPoints eAIBase_new = None
   \<and> EEKilled (ex_env True False False) (eAIBase_new, world_new) = (eAIBase_new, world_new)"
proof -
  have ref: "m_AIWayPoints (fst ex_sampled) = Some 0"
    and old: "trajectory ex_sampled = [(100, 65, 200)]"
    and none: "m_AIDeathPoints (CURRENT_HEATMAP (snd ex_sampled)) = []"
    by (simp_all add: ex_sampled_eq trajectory_def)
  have wp: "GetWaypoint (ex_env True False False) = (100, 65, 200)"
    by (simp add: GetWaypoint_def ex_env_def signed_divide_int_def)
  have new: "m_AIWayPoints eAIBase_new = None" by (simp add: eAIBase_new_def)
  from death_appends_final_waypoint [of "fst ex_sampled" 0 "ex_env True False False" "snd ex_sampled"] ref old none wp
  have "trajectory (EEKilled (ex_env True False False) ex_sampled)
          = [(100, 65, 200), (100, 65, 200)]"
    and "m_AIDeathPoints (CURRENT_HEATMAP (snd (EEKilled (ex_env True False False) ex_sampled)))
          = [(100, 65, 200)]"
    by simp_all
  moreover from death_appends_final_waypoint [of eAIBase_new _ "ex_env True False False" world_new] new
  have "EEKilled (ex_env True False False) (eAIBase_new, world_new) = (eAIBase_new, world_new)"
    by simp
  ultimately show ?thesis using ref old new by simp
qed

section \<open>Runs of the server\<close>

lemma run_append: "run g (xs @ ys) s = run g ys (run g xs s)"
  by (induction xs arbitrary: s) simp_all

lemma select_keeps_or_allocates:
  "OnSelectPlayer env (e, w) = (e', w') \<Longrightarrow>
     (e' = e \<and> w' = w)
     \<or> (m_AIWayPoints e' = Some (next_ref w) \<and> next_ref w' = Suc (next_ref w)
          \<and> (\<forall>r. r \<noteq> next_ref w \<longrightarrow> arrays w' r = arrays w r))"
  by (auto simp: OnSelectPlayer_def Let_def split: if_splits)

lemma tick_world:
  "OnScheduledTick g env dt (e, w) = (e', w') \<Longrightarrow>
     m_AIWayPoints e' = m_AIWayPoints e \<and> next_ref w' = next_ref w
     \<and> (\<forall>r. m_AIWayPoints e \<noteq> Some r \<longrightarrow> arrays w' r = arrays w r)"
  by (auto simp: OnScheduledTick_def Insert_at_def Let_def split: option.splits if_splits)

lemma killed_world:
  "EEKilled env (e, w) = (e', w') \<Longrightarrow>
     m_AIWayPoints e' = m_AIWayPoints e \<and> next_ref w' = next_ref w
     \<and> (\<forall>r. m_AIWayPoints e \<noteq> Some r \<longrightarrow> arrays w' r = arrays w r)"
  by (auto simp: EEKilled_def Insert_at_def Let_def split: option.splits)

lemma refs_ok_new: "refs_ok (server_new h)"
  by (simp add: refs_ok_def server_new_def eAIBase_new_def)

lemma refs_ok_agent_step:
  assumes ok: "refs_ok s"
    and step: "f (srv_agents s i, srv_world s) = (e', w')"
    and cases: "(m_AIWayPoints e' = m_AIWayPoints (srv_agents s i)
                   \<and> next_ref w' = next_ref (srv_world s))
                \<or> (m_AIWayPoints e' = Some (next_ref (srv_world s))
                   \<and> next_ref w' = Suc (next_ref (srv_world s)))"
  shows "refs_ok (on_agent i f s)"
proof -
  have s': "on_agent i f s = s\<lparr>srv_agents := (srv_agents s)(i := e'), srv_world := w'\<rparr>"
    by (simp add: on_agent_def step)
  from ok have below: "\<And>j r. m_AIWayPoints (srv_agents s j) = Some r \<Longrightarrow> r < next_ref (srv_world s)"
    and inj: "\<And>j k r. m_AIWayPoints (srv_agents s j) = Some r \<Longrightarrow>
                m_AIWayPoints (srv_agents s k) = Some r \<Longrightarrow> j = k"
    by (auto simp: refs_ok_def)
  from cases show ?thesis
  proof
    assume same: "m_AIWayPoints e' = m_AIWayPoints (srv_agents s i)
                   \<and> next_ref w' = next_ref (srv_world s)"
    have refs: "\<And>j. m_AIWayPoints (((srv_agents s)(i := e')) j) = m_AIWayPoints (srv_agents s j)"
      using same by simp
    show ?thesis
      unfolding s' refs_ok_def using same below inj by (simp add: refs del: fun_upd_apply)
  next
    assume fresh: "m_AIWayPoints e' = Some (next_ref (srv_world s))
                   \<and> next_ref w' = Suc (next_ref (srv_world s))"
    show ?thesis
      unfolding s' refs_ok_def
    proof (intro conjI allI impI)
      fix j r
      assume "m_AIWayPoints (srv_agents (s\<lparr>srv_agents := (srv_agents s)(i := e'), srv_world := w'\<rparr>) j) = Some r"
      then have "r = next_ref (srv_world s) \<or> m_AIWayPoints (srv_agents s j) = Some r"
        using fresh by (cases "j = i") simp_all
      with below [of j r] fresh
      show "r < next_ref (srv_world (s\<lparr>srv_agents := (srv_agents s)(i := e'), srv_world := w'\<rparr>))"
        by auto
    next
      fix j k r
      assume h: "m_AIWayPoints (srv_agents (s\<lparr>srv_agents := (srv_agents s)(i := e'), srv_world := w'\<rparr>) j) = Some r
               \<and> m_AIWayPoints (srv_agents (s\<lparr>srv_agents := (srv_agents s)(i := e'), srv_world := w'\<rparr>) k) = Some r"
      show "j = k"
      proof (cases "j = i")
        case True
        with h fresh have r: "r = next_ref (srv_world s)" by simp
        show ?thesis
        proof (rule ccontr)
          assume "j \<noteq> k"
          with True h have "m_AIWayPoints (srv_agents s k) = Some r" by simp
          from below [OF this] r show False by simp
        qed
      next
        case False
        with h have hj: "m_AIWayPoints (srv_agents s j) = Some r" by simp
        show ?thesis
        proof (cases "k = i")
          case True
          with h fresh have "r = next_ref (srv_world s)" by simp
          with below [OF hj] show ?thesis by simp
        next
          case False
          with h have "m_AIWayPoints (srv_agents s k) = Some r" by simp
          with hj show ?thesis by (rule inj)
        qed
      qed
    qed
  qed
qed

lemma refs_ok_mission: "refs_ok s \<Longrightarrow> refs_ok (on_mission f s)"
  by (simp add: refs_ok_def on_mission_def split: prod.splits)

lemma refs_ok_dispatch:
  assumes "refs_ok s"
  shows "refs_ok (dispatch g c s)"
proof (cases c)
  case (Init env)
  with assms show ?thesis by (simp add: refs_ok_mission)
next
  case (Update t)
  with assms show ?thesis by (simp add: refs_ok_mission)
next
  case Finish
  with assms show ?thesis by (simp add: refs_ok_mission)
next
  case (Select i env)
  obtain e' w' where r: "OnSelectPlayer env (srv_agents s i, srv_world s) = (e', w')"
    by (cases "OnSelectPlayer env (srv_agents s i, srv_world s)")
  from select_keeps_or_allocates [OF r]
  have "(m_AIWayPoints e' = m_AIWayPoints (srv_agents s i)
                   \<and> next_ref w' = next_ref (srv_world s))
                \<or> (m_AIWayPoints e' = Some (next_ref (srv_world s))
                   \<and> next_ref w' = Suc (next_ref (srv_world s)))" by auto
  from refs_ok_agent_step [of s "OnSelectPlayer env" i e' w', OF assms r this]
  show ?thesis by (simp add: Select)
next
  case (Tick i env dt)
  obtain e' w' where r: "OnScheduledTick g env dt (srv_agents s i, srv_world s) = (e', w')"
    by (cases "OnScheduledTick g env dt (srv_agents s i, srv_world s)")
  from tick_world [OF r]
  have "(m_AIWayPoints e' = m_AIWayPoints (srv_agents s i)
                   \<and> next_ref w' = next_ref (srv_world s))
                \<or> (m_AIWayPoints e' = Some (next_ref (srv_world s))
                   \<and> next_ref w' = Suc (next_ref (srv_world s)))" by simp
  from refs_ok_agent_step [of s "OnScheduledTick g env dt" i e' w', OF assms r this]
  show ?thesis by (simp add: Tick)
next
  case (Killed i env)
  obtain e' w' where r: "EEKilled env (srv_agents s i, srv_world s) = (e', w')"
    by (cases "EEKilled env (srv_agents s i, srv_world s)")
  from killed_world [OF r]
  have "(m_AIWayPoints e' = m_AIWayPoints (srv_agents s i)
                   \<and> next_ref w' = next_ref (srv_world s))
                \<or> (m_AIWayPoints e' = Some (next_ref (srv_world s))
                   \<and> next_ref w' = Suc (next_ref (srv_world s)))" by simp
  from refs_ok_agent_step [of s "EEKilled env" i e' w', OF assms r this]
  show ?thesis by (simp add: Killed)
qed

lemma refs_ok_run: "refs_ok s \<Longrightarrow> refs_ok (run g cs s)"
  by (induction cs arbitrary: s) (simp_all add: refs_ok_dispatch)

lemma after_death_step:
  assumes ok: "refs_ok s" and ref: "m_AIWayPoints (srv_agents s i) = Some r"
    and ad: "after_death i c"
  shows "m_AIWayPoints (srv_agents (dispatch g c s) i) = Some r
         \<and> arrays (srv_world (dispatch g c s)) r = arrays (srv_world s) r"
proof (cases c)
  case (Init env)
  with ref show ?thesis by (simp add: on_mission_def split: prod.splits)
next
  case (Update t)
  with ref show ?thesis by (simp add: on_mission_def split: prod.splits)
next
  case Finish
  with ref show ?thesis by (simp add: on_mission_def split: prod.splits)
next
  case (Select j env)
  with ad have ji: "j \<noteq> i" by simp
  obtain e' w' where r: "OnSelectPlayer env (srv_agents s j, srv_world s) = (e', w')"
    by (cases "OnSelectPlayer env (srv_agents s j, srv_world s)")
  from ok ref have "r < next_ref (srv_world s)" by (auto simp: refs_ok_def)
  with select_keeps_or_allocates [OF r] ji ref show ?thesis
    unfolding Select by (auto simp: on_agent_def r)
next
  case (Tick j env dt)
  show ?thesis
  proof (cases "j = i")
    case True
    with ad Tick have "\<not> IsAlive env" by simp
    then have "OnScheduledTick g env dt (srv_agents s i, srv_world s)
                 = (srv_agents s i, srv_world s)"
      by (simp add: tick_ineligible)
    with ref True show ?thesis unfolding Tick by (simp add: on_agent_def)
  next
    case False
    obtain e' w' where r: "OnScheduledTick g env dt (srv_agents s j, srv_world s) = (e', w')"
      by (cases "OnScheduledTick g env dt (srv_agents s j, srv_world s)")
    from ok ref False have "m_AIWayPoints (srv_agents s j) \<noteq> Some r"
      by (auto simp: refs_ok_def)
    with tick_world [OF r] False ref show ?thesis
      unfolding Tick by (auto simp: on_agent_def r)
  qed
next
  case (Killed j env)
  with ad have ji: "j \<noteq> i" by simp
  obtain e' w' where r: "EEKilled env (srv_agents s j, srv_world s) = (e', w')"
    by (cases "EEKilled env (srv_agents s j, srv_world s)")
  from ok ref ji have "m_AIWayPoints (srv_agents s j) \<noteq> Some r"
    by (auto simp: refs_ok_def)
  with killed_world [OF r] ji ref show ?thesis
    unfolding Killed by (auto simp: on_agent_def r)
qed

lemma after_death_run:
  assumes "refs_ok s" and "m_AIWayPoints (srv_agents s i) = Some r"
    and "\<forall>c \<in> set cs. after_death i c"
  shows "m_AIWayPoints (srv_agents (run g cs s) i) = Some r
         \<and> arrays (srv_world (run g cs s)) r = arrays (srv_world s) r"
  using assms
proof (induction cs arbitrary: s)
  case Nil
  then show ?case by simp
next
  case (Cons c cs)
  from Cons.prems have ad: "after_death i c" and rest: "\<forall>c \<in> set cs. after_death i c"
    by simp_all
  from after_death_step [OF Cons.prems(1) Cons.prems(2) ad, of g]
  have ref': "m_AIWayPoints (srv_agents (dispatch g c s) i) = Some r"
    and same: "arrays (srv_world (dispatch g c s)) r = arrays (srv_world s) r" by simp_all
  from Cons.IH [OF refs_ok_dispatch [OF Cons.prems(1)] ref' rest] same
  show ?case by simp
qed

lemma ex_before_run:
  "agent_trajectory 0 (run ex_game ex_before (server_new (ex_host True))) = [(100, 65, 200)]
   \<and> m_AIWayPoints (srv_agents (run ex_game ex_before (server_new (ex_host True))) 0) = Some 0"
  by (simp add: ex_before_def server_new_def agent_trajectory_def trajectory_def on_agent_def
      OnSelectPlayer_def OnScheduledTick_def Insert_at_def GetWaypoint_def ex_env_def ex_game_def
      eAIBase_new_def world_new_def HeatmapData_new_def float_MAX_add_1 float_ge_MAX_10 Let_def
      signed_divide_int_def)

text \<open>
  Claim C9. Take any run of the server from its initial state in which agent \<open>i\<close> is
  killed while it holds an array, and in which the engine afterwards reports \<open>i\<close> as not
  alive in every tick of \<open>i\<close> and neither selects nor kills \<open>i\<close> again (callbacks of the
  mission and of the other agents are arbitrary). Then the trajectory of \<open>i\<close> at the end
  of the run is its trajectory before the death with the death waypoint appended: the
  death waypoint is its last element, and nothing was appended after it.
\<close>

theorem death_waypoint_is_last:
  assumes tracked: "m_AIWayPoints (srv_agents (run g before (server_new h)) i) \<noteq> None"
    and later: "\<forall>c \<in> set after. after_death i c"
  shows "agent_trajectory i (run g (before @ Killed i env # after) (server_new h))
           = agent_trajectory i (run g before (server_new h)) @ [GetWaypoint env]
         \<and> last (agent_trajectory i (run g (before @ Killed i env # after) (server_new h)))
           = GetWaypoint env"
proof -
  let ?s = "run g before (server_new h)"
  let ?k = "dispatch g (Killed i env) ?s"
  from tracked obtain r where ref: "m_AIWayPoints (srv_agents ?s i) = Some r" by auto
  have ok: "refs_ok ?s" by (rule refs_ok_run [OF refs_ok_new])
  have kref: "m_AIWayPoints (srv_agents ?k i) = Some r"
    and karr: "arrays (srv_world ?k) r = arrays (srv_world ?s) r @ [GetWaypoint env]"
    using ref by (simp_all add: on_agent_def killed_with_array)
  from after_death_run [OF refs_ok_dispatch [OF ok] kref later, of g]
  have "m_AIWayPoints (srv_agents (run g after ?k) i) = Some r"
    and "arrays (srv_world (run g after ?k)) r = arrays (srv_world ?k) r" by simp_all
  with karr ref
  have "agent_trajectory i (run g after ?k) = agent_trajectory i ?s @ [GetWaypoint env]"
    by (simp add: agent_trajectory_def trajectory_def)
  then show ?thesis by (simp add: run_append)
qed

theorem death_waypoint_is_last_witness:
  "agent_trajectory 0 (run ex_game ex_before (server_new (ex_host True))) = [(100, 65, 200)]
   \<and> agent_trajectory 0
        (run ex_game (ex_before @ Killed 0 (ex_env True False False) # ex_after)
           (server_new (ex_host True)))
       = [(100, 65, 200), (100, 65, 200)]
   \<and> last (agent_trajectory 0
        (run ex_game (ex_before @ Killed 0 (ex_env True False False) # ex_after)
           (server_new (ex_host True))))
       = GetWaypoint (ex_env True False False)"
proof -
  have tracked:
    "m_AIWayPoints (srv_agents (run ex_game ex_before (server_new (ex_host True))) 0) \<noteq> None"
    by (simp add: ex_before_run)
  have later: "\<forall>c \<in> set ex_after. after_death 0 c"
    by (simp add: ex_after_def ex_env_def)
  have wp: "GetWaypoint (ex_env True False False) = (100, 65, 200)"
    by (simp add: GetWaypoint_def ex_env_def signed_divide_int_def)
  from death_waypoint_is_last [OF tracked later, of "ex_env True False False"] wp ex_before_run
  show ?thesis by simp
qed


section \<open>Autosave and the session file\<close>

lemma save_named:
  "m_SessionFileName m \<noteq> [] \<Longrightarrow>
   SaveHeatmapData w (m, h)
     = (m, h\<lparr>json_saves := json_saves h @ [(m_SessionFileName m, snapshot w)]\<rparr>)"
  by (simp add: SaveHeatmapData_def JsonSaveFile_def)

lemma save_unnamed: "m_SessionFileName m = [] \<Longrightarrow> SaveHeatmapData w (m, h) = (m, h)"
  by (simp add: SaveHeatmapData_def)

lemma update_quiet:
  "\<not> float_ge (float_add (m_AutosaveTimer m) t) AUTOSAVE_INTERVAL \<Longrightarrow>
   OnUpdate w t (m, h) = (m\<lparr>m_AutosaveTimer := float_add (m_AutosaveTimer m) t\<rparr>, h)"
  by (simp add: OnUpdate_def Let_def)

lemma update_saves:
  assumes "float_ge (float_add (m_AutosaveTimer m) t) AUTOSAVE_INTERVAL"
    and "m_SessionFileName m \<noteq> []"
  shows "OnUpdate w t (m, h) =
     (m\<lparr>m_AutosaveTimer := Finite 0\<rparr>,
      h\<lparr>json_saves := json_saves h @ [(m_SessionFileName m, snapshot w)],
        printed := printed h @ [''[Heatmap] Auto-saved heatmap data'']\<rparr>)"
  using assms by (simp add: OnUpdate_def Let_def save_named Print_def)

lemma update_keeps_name: "m_SessionFileName (fst (OnUpdate w t s)) = m_SessionFileName (fst s)"
  by (cases s) (simp add: OnUpdate_def Let_def SaveHeatmapData_def split: prod.splits)

lemma finish_keeps_mission: "fst (OnMissionFinish w s) = fst s"
  by (cases s) (simp add: OnMissionFinish_def SaveHeatmapData_def split: prod.splits)

lemma finish_named:
  "m_SessionFileName m \<noteq> [] \<Longrightarrow>
   json_saves (snd (OnMissionFinish w (m, h)))
     = json_saves h @ [(m_SessionFileName m, snapshot w)]"
  by (simp add: OnMissionFinish_def save_named Print_def)

lemma init_name: "m_SessionFileName (fst (OnInit env s)) = session_file_name env"
  by (cases s) (simp add: OnInit_def Let_def)

lemma init_keeps_saves: "json_saves (snd (OnInit env s)) = json_saves (snd s)"
  by (cases s) (simp add: OnInit_def Let_def Print_def MakeDirectory_def)

lemma init_prints:
  "printed (snd (OnInit env (m, h)))
     = printed h @ [''[Heatmap] Initialized - Session file: '' @ session_file_name env,
                    ''[Heatmap] Autosaving every '' @ float_to_string env AUTOSAVE_INTERVAL
                      @ '' seconds'']"
  by (simp add: OnInit_def Let_def Print_def MakeDirectory_def)

lemma session_file_name_nonempty: "session_file_name env \<noteq> []"
  by (simp add: session_file_name_def HEATMAP_PROFILE_FOLDER_def Let_def split: prod.splits)

lemma run_updates_append: "run_updates (xs @ ys) s = run_updates ys (run_updates xs s)"
  by (induction xs arbitrary: s) simp_all

lemma float_sum_Cons: "float_sum a (d # ds) = float_sum (float_add a d) ds"
  by (simp add: float_sum_def)

lemma float_sum_snoc: "float_sum a (ds @ [d]) = float_add (float_sum a ds) d"
  by (simp add: float_sum_def)

lemma quiet_updates:
  assumes "\<forall>n. 0 < n \<and> n \<le> length ts \<longrightarrow>
             \<not> float_ge (float_sum (m_AutosaveTimer m) (map snd (take n ts))) AUTOSAVE_INTERVAL"
  shows "run_updates ts (m, h)
           = (m\<lparr>m_AutosaveTimer := float_sum (m_AutosaveTimer m) (map snd ts)\<rparr>, h)"
  using assms
proof (induction ts arbitrary: m)
  case Nil
  show ?case by (simp add: float_sum_def)
next
  case (Cons t ts)
  from Cons.prems [rule_format, of 1]
  have one: "\<not> float_ge (float_add (m_AutosaveTimer m) (snd t)) AUTOSAVE_INTERVAL"
    by (simp add: float_sum_def)
  let ?m = "m\<lparr>m_AutosaveTimer := float_add (m_AutosaveTimer m) (snd t)\<rparr>"
  have "\<forall>n. 0 < n \<and> n \<le> length ts \<longrightarrow>
          \<not> float_ge (float_sum (m_AutosaveTimer ?m) (map snd (take n ts))) AUTOSAVE_INTERVAL"
  proof (intro allI impI)
    fix n assume "0 < n \<and> n \<le> length ts"
    with Cons.prems [rule_format, of "Suc n"]
    show "\<not> float_ge (float_sum (m_AutosaveTimer ?m) (map snd (take n ts))) AUTOSAVE_INTERVAL"
      by (simp add: float_sum_Cons)
  qed
  from Cons.IH [OF this] show ?case
    by (simp add: update_quiet [OF one] float_sum_Cons)
qed

lemma ex_started_eq:
  "ex_started =
     (\<lparr>m_AutosaveTimer = Finite 0,
       m_SessionFileName = ''$profile:Heatmap/session_2024-3-5_14-7-20_Heatmap.json''\<rparr>,
      \<lparr>existing_dirs = [''$profile:Heatmap''], can_create_dirs = True,
       printed = [''[Heatmap] Initialized - Session file: ''
                    @ ''$profile:Heatmap/session_2024-3-5_14-7-20_Heatmap.json'',
                  ''[Heatmap] Autosaving every 120 seconds''],
       json_saves = []\<rparr>)"
  by (simp add: ex_started_def OnInit_def ex_init_def ex_host_def MissionServer_new_def
      FileExist_def MakeDirectory_def Print_def session_file_name_def HEATMAP_PROFILE_FOLDER_def
      int_string_def nat_string.simps digit_char_def signed_modulo_int_def Let_def)

lemma snapshot_new: "snapshot world_new = ([], [], [])"
  by (simp add: snapshot_def world_new_def HeatmapData_new_def)

lemma ex_thirties:
  "float_sum (Finite 0) [Finite 30] = Finite 30"
  "float_sum (Finite 0) [Finite 30, Finite 30] = Finite 60"
  "float_sum (Finite 0) [Finite 30, Finite 30, Finite 30] = Finite 90"
  "float_sum (Finite 0) [Finite 30, Finite 30, Finite 30, Finite 30] = Finite 120"
  by (simp_all add: float_sum_def round_float_numerals)

lemma ex_rounded_interval:
  "float_sum (Finite 0) [ex_below_interval] = ex_below_interval"
  "float_sum (Finite 0) [ex_below_interval, ex_interval_rest] = Finite 120"
  by (simp_all add: float_sum_def ex_below_interval_add ex_rounds_to_interval)

text \<open>
  Claim C7. The autosave interval is 120 seconds. Take a mission with a session file
  name and a sequence of ticks such that the timer, with the timeslices added to it one
  after the other (in single precision, as \<^verbatim>\<open>+=\<close> does), stays below the interval until
  the last tick and reaches it at the last tick. Every tick before the last only adds
  its timeslice to the timer and saves nothing; the last tick saves the aggregate
  exactly once, to the session file, and leaves the timer at exactly zero. Four ticks of
  30 seconds after \<^verbatim>\<open>OnInit\<close> are such a sequence: the timer goes through 30, 60 and 90
  with nothing saved, and one save has happened after the fourth. So are the two
  timeslices \<open>120 - 2 ^ - 17\<close> and \<open>3 * 2 ^ - 19\<close>, whose rounded sum is 120.
\<close>

theorem autosave_fires_once_at_interval:
  assumes named: "m_SessionFileName m \<noteq> []"
    and nonempty: "ts \<noteq> []"
    and quiet: "\<forall>n. 0 < n \<and> n < length ts \<longrightarrow>
                  \<not> float_ge (float_sum (m_AutosaveTimer m) (map snd (take n ts)))
                       AUTOSAVE_INTERVAL"
    and reach: "float_ge (float_sum (m_AutosaveTimer m) (map snd ts)) AUTOSAVE_INTERVAL"
  shows "AUTOSAVE_INTERVAL = Finite 120
     \<and> (\<forall>n. 0 < n \<and> n < length ts \<longrightarrow>
           run_updates (take n ts) (m, h)
             = (m\<lparr>m_AutosaveTimer := float_sum (m_AutosaveTimer m) (map snd (take n ts))\<rparr>,
                h))
     \<and> run_updates ts (m, h)
         = (m\<lparr>m_AutosaveTimer := Finite 0\<rparr>,
            h\<lparr>json_saves := json_saves h @ [(m_SessionFileName m, snapshot (fst (last ts)))],
              printed := printed h @ [''[Heatmap] Auto-saved heatmap data'']\<rparr>)"
proof (intro conjI allI impI)
  show "AUTOSAVE_INTERVAL = Finite 120" by (simp add: AUTOSAVE_INTERVAL_def)
next
  fix n assume n: "0 < n \<and> n < length ts"
  have "\<forall>k. 0 < k \<and> k \<le> length (take n ts) \<longrightarrow>
          \<not> float_ge (float_sum (m_AutosaveTimer m) (map snd (take k (take n ts))))
               AUTOSAVE_INTERVAL"
  proof (intro allI impI)
    fix k assume k: "0 < k \<and> k \<le> length (take n ts)"
    with n have "0 < k \<and> k < length ts" and "min k n = k" by simp_all
    with quiet show "\<not> float_ge (float_sum (m_AutosaveTimer m) (map snd (take k (take n ts))))
                          AUTOSAVE_INTERVAL" by simp
  qed
  then show "run_updates (take n ts) (m, h)
      = (m\<lparr>m_AutosaveTimer := float_sum (m_AutosaveTimer m) (map snd (take n ts))\<rparr>, h)"
    by (rule quiet_updates)
next
  let ?init = "butlast ts"
  let ?m = "m\<lparr>m_AutosaveTimer := float_sum (m_AutosaveTimer m) (map snd ?init)\<rparr>"
  from nonempty have split: "ts = ?init @ [last ts]" by simp
  have "\<forall>k. 0 < k \<and> k \<le> length ?init \<longrightarrow>
          \<not> float_ge (float_sum (m_AutosaveTimer m) (map snd (take k ?init))) AUTOSAVE_INTERVAL"
  proof (intro allI impI)
    fix k assume k: "0 < k \<and> k \<le> length ?init"
    from nonempty have "length ?init < length ts" by (cases ts rule: rev_cases) simp_all
    with k have kl: "k < length ts" by linarith
    with k have "0 < k \<and> k < length ts" by simp
    moreover from kl have "take k ?init = take k ts" by (rule take_butlast)
    ultimately show "\<not> float_ge (float_sum (m_AutosaveTimer m) (map snd (take k ?init)))
                          AUTOSAVE_INTERVAL"
      using quiet by simp
  qed
  then have first: "run_updates ?init (m, h) = (?m, h)" by (rule quiet_updates)
  have "map snd ts = map snd ?init @ [snd (last ts)]"
    by (subst split) simp
  then have "float_sum (m_AutosaveTimer m) (map snd ts)
          = float_add (float_sum (m_AutosaveTimer m) (map snd ?init)) (snd (last ts))"
    by (simp only: float_sum_snoc)
  with reach have r: "float_ge (float_add (m_AutosaveTimer ?m) (snd (last ts))) AUTOSAVE_INTERVAL"
    by simp
  have n: "m_SessionFileName ?m \<noteq> []" using named by simp
  have "run_updates ts (m, h) = OnUpdate (fst (last ts)) (snd (last ts)) (?m, h)"
    by (subst split) (simp add: run_updates_append first)
  with update_saves [OF r n, of "fst (last ts)" h]
  show "run_updates ts (m, h)
         = (m\<lparr>m_AutosaveTimer := Finite 0\<rparr>,
            h\<lparr>json_saves := json_saves h @ [(m_SessionFileName m, snapshot (fst (last ts)))],
              printed := printed h @ [''[Heatmap] Auto-saved heatmap data'']\<rparr>)"
    by simp
qed

theorem autosave_fires_once_at_interval_witness:
  "m_AutosaveTimer (fst ex_started) = Finite 0
   \<and> json_saves (snd ex_started) = []
   \<and> json_saves (snd (run_updates
        [(world_new, Finite 30), (world_new, Finite 30), (world_new, Finite 30)] ex_started))
       = []
   \<and> m_AutosaveTimer (fst (run_updates
        [(world_new, Finite 30), (world_new, Finite 30), (world_new, Finite 30)] ex_started))
       = Finite 90
   \<and> json_saves (snd (run_updates
        [(world_new, Finite 30), (world_new, Finite 30), (world_new, Finite 30),
         (world_new, Finite 30)] ex_started))
       = [(''$profile:Heatmap/session_2024-3-5_14-7-20_Heatmap.json'', ([], [], []))]
   \<and> m_AutosaveTimer (fst (run_updates
        [(world_new, Finite 30), (world_new, Finite 30), (world_new, Finite 30),
         (world_new, Finite 30)] ex_started))
       = Finite 0
   \<and> float_sum (Finite 0) [ex_below_interval, ex_interval_rest] = Finite 120
   \<and> json_saves (snd (run_updates [(world_new, ex_below_interval)] ex_started)) = []
   \<and> json_saves (snd (run_updates
        [(world_new, ex_below_interval), (world_new, ex_interval_rest)] ex_started))
       = [(''$profile:Heatmap/session_2024-3-5_14-7-20_Heatmap.json'', ([], [], []))]"
proof -
  let ?ts = "[(world_new, Finite 30), (world_new, Finite 30), (world_new, Finite 30),
              (world_new, Finite 30)]"
  have named: "m_SessionFileName (fst ex_started) \<noteq> []" by (simp add: ex_started_eq)
  have nonempty: "?ts \<noteq> []" by simp
  have t0: "m_AutosaveTimer (fst ex_started) = Finite 0" by (simp add: ex_started_eq)
  have quiet: "\<forall>n. 0 < n \<and> n < length ?ts \<longrightarrow>
      \<not> float_ge (float_sum (m_AutosaveTimer (fst ex_started)) (map snd (take n ?ts)))
           AUTOSAVE_INTERVAL"
  proof (intro allI impI)
    fix n :: nat assume "0 < n \<and> n < length ?ts"
    then have "n = 1 \<or> n = 2 \<or> n = 3" by auto
    then show "\<not> float_ge (float_sum (m_AutosaveTimer (fst ex_started)) (map snd (take n ?ts)))
                    AUTOSAVE_INTERVAL"
      by (auto simp: t0 AUTOSAVE_INTERVAL_def numeral_2_eq_2 numeral_3_eq_3 ex_thirties)
  qed
  have reach: "float_ge (float_sum (m_AutosaveTimer (fst ex_started)) (map snd ?ts))
                 AUTOSAVE_INTERVAL"
    by (simp add: t0 AUTOSAVE_INTERVAL_def ex_thirties)
  note main = autosave_fires_once_at_interval [OF named nonempty quiet reach, of "snd ex_started"]
  from main [THEN conjunct2, THEN conjunct1, rule_format, of 3]
  have three: "run_updates [(world_new, Finite 30), (world_new, Finite 30), (world_new, Finite 30)]
        ex_started
      = ((fst ex_started)\<lparr>m_AutosaveTimer := Finite 90\<rparr>, snd ex_started)"
    by (simp add: t0 ex_thirties)
  from main [THEN conjunct2, THEN conjunct2]
  have four: "run_updates ?ts ex_started
      = ((fst ex_started)\<lparr>m_AutosaveTimer := Finite 0\<rparr>,
         (snd ex_started)\<lparr>json_saves := json_saves (snd ex_started)
              @ [(m_SessionFileName (fst ex_started), snapshot world_new)],
            printed := printed (snd ex_started) @ [''[Heatmap] Auto-saved heatmap data'']\<rparr>)"
    by simp
  let ?us = "[(world_new, ex_below_interval), (world_new, ex_interval_rest)]"
  have quiet2: "\<forall>n. 0 < n \<and> n < length ?us \<longrightarrow>
      \<not> float_ge (float_sum (m_AutosaveTimer (fst ex_started)) (map snd (take n ?us)))
           AUTOSAVE_INTERVAL"
  proof (intro allI impI)
    fix n :: nat assume "0 < n \<and> n < length ?us"
    then have "n = 1" by auto
    then show "\<not> float_ge (float_sum (m_AutosaveTimer (fst ex_started)) (map snd (take n ?us)))
                    AUTOSAVE_INTERVAL"
      by (simp add: t0 AUTOSAVE_INTERVAL_def ex_rounded_interval ex_below_interval_less)
  qed
  have reach2: "float_ge (float_sum (m_AutosaveTimer (fst ex_started)) (map snd ?us))
                  AUTOSAVE_INTERVAL"
    by (simp add: t0 AUTOSAVE_INTERVAL_def ex_rounded_interval)
  have nonempty2: "?us \<noteq> []" by simp
  note second =
    autosave_fires_once_at_interval [OF named nonempty2 quiet2 reach2, of "snd ex_started"]
  from second [THEN conjunct2, THEN conjunct1, rule_format, of 1]
  have one: "run_updates [(world_new, ex_below_interval)] ex_started
      = ((fst ex_started)\<lparr>m_AutosaveTimer := ex_below_interval\<rparr>, snd ex_started)"
    by (simp add: t0 ex_rounded_interval)
  from second [THEN conjunct2, THEN conjunct2]
  have two: "run_updates ?us ex_started
      = ((fst ex_started)\<lparr>m_AutosaveTimer := Finite 0\<rparr>,
         (snd ex_started)\<lparr>json_saves := json_saves (snd ex_started)
              @ [(m_SessionFileName (fst ex_started), snapshot world_new)],
            printed := printed (snd ex_started) @ [''[Heatmap] Auto-saved heatmap data'']\<rparr>)"
    by simp
  show ?thesis
    unfolding three four one two by (simp add: ex_started_eq snapshot_new ex_rounded_interval)
qed

lemma update_unnamed:
  "m_SessionFileName m = [] \<Longrightarrow> json_saves (snd (OnUpdate w t (m, h))) = json_saves h"
  by (simp add: OnUpdate_def Let_def save_unnamed Print_def)

lemma finish_unnamed:
  "m_SessionFileName m = [] \<Longrightarrow> json_saves (snd (OnMissionFinish w (m, h))) = json_saves h"
  by (simp add: OnMissionFinish_def save_unnamed Print_def)

lemma on_mission_simps:
  "srv_mission (on_mission f s) = fst (f (srv_mission s, srv_host s))"
  "srv_host (on_mission f s) = snd (f (srv_mission s, srv_host s))"
  "srv_agents (on_mission f s) = srv_agents s"
  "srv_world (on_mission f s) = srv_world s"
  by (simp_all add: on_mission_def case_prod_beta)

lemma on_agent_simps:
  "srv_mission (on_agent i f s) = srv_mission s"
  "srv_host (on_agent i f s) = srv_host s"
  "srv_agents (on_agent i f s) = (srv_agents s)(i := fst (f (srv_agents s i, srv_world s)))"
  "srv_world (on_agent i f s) = snd (f (srv_agents s i, srv_world s))"
  by (simp_all add: on_agent_def case_prod_beta)

lemma dispatch_mission_name:
  "\<not> is_Init c \<Longrightarrow>
   m_SessionFileName (srv_mission (dispatch g c s)) = m_SessionFileName (srv_mission s)"
  by (cases c)
    (simp_all add: on_mission_simps on_agent_simps update_keeps_name finish_keeps_mission)

lemma run_mission_name:
  "\<forall>c \<in> set cs. \<not> is_Init c \<Longrightarrow>
   m_SessionFileName (srv_mission (run g cs s)) = m_SessionFileName (srv_mission s)"
  by (induction cs arbitrary: s) (simp_all add: dispatch_mission_name)

lemma dispatch_unnamed_saves:
  assumes "m_SessionFileName (srv_mission s) = []" and "\<not> is_Init c"
  shows "json_saves (srv_host (dispatch g c s)) = json_saves (srv_host s)"
  using assms
  by (cases c)
    (simp_all add: on_mission_simps on_agent_simps update_unnamed finish_unnamed)

text \<open>
  Claim C10. While the session file name is the empty string (\<^verbatim>\<open>OnInit\<close> has not run),
  \<^verbatim>\<open>SaveHeatmapData\<close> returns the state it was given, and in any sequence of callbacks
  that does not contain \<^verbatim>\<open>OnInit\<close> (autosave ticks and \<^verbatim>\<open>OnMissionFinish\<close> included) no
  call of \<^verbatim>\<open>JsonSaveFile\<close> is made and the name stays empty. The model has no error
  outcome, as the source has none on this path.
\<close>

theorem uninitialised_flush_is_noop:
  assumes "m_SessionFileName (srv_mission s) = []" and "\<forall>c \<in> set cs. \<not> is_Init c"
  shows "SaveHeatmapData w (srv_mission s, srv_host s) = (srv_mission s, srv_host s)
     \<and> json_saves (srv_host (run g cs s)) = json_saves (srv_host s)
     \<and> m_SessionFileName (srv_mission (run g cs s)) = []"
proof (intro conjI)
  from assms(1) show "SaveHeatmapData w (srv_mission s, srv_host s) = (srv_mission s, srv_host s)"
    by (rule save_unnamed)
next
  from assms show "json_saves (srv_host (run g cs s)) = json_saves (srv_host s)"
  proof (induction cs arbitrary: s)
    case Nil
    show ?case by simp
  next
    case (Cons c cs)
    from Cons.prems have c: "\<not> is_Init c" and rest: "\<forall>c \<in> set cs. \<not> is_Init c" by simp_all
    from Cons.prems(1) c have name: "m_SessionFileName (srv_mission (dispatch g c s)) = []"
      by (simp add: dispatch_mission_name)
    from Cons.IH [OF name rest] dispatch_unnamed_saves [OF Cons.prems(1) c, of g]
    show ?case by simp
  qed
next
  from assms show "m_SessionFileName (srv_mission (run g cs s)) = []"
    by (simp add: run_mission_name)
qed

theorem uninitialised_flush_is_noop_witness:
  "m_SessionFileName (srv_mission (server_new (ex_host True))) = []
   \<and> json_saves (srv_host (server_new (ex_host True))) = []
   \<and> json_saves (srv_host (run ex_game (ex_before @ ex_after @ [Update (Finite 120), Finish])
                              (server_new (ex_host True)))) = []"
proof -
  have unnamed: "m_SessionFileName (srv_mission (server_new (ex_host True))) = []"
    and none: "json_saves (srv_host (server_new (ex_host True))) = []"
    by (simp_all add: server_new_def MissionServer_new_def ex_host_def)
  have no_init: "\<forall>c \<in> set (ex_before @ ex_after @ [Update (Finite 120), Finish]). \<not> is_Init c"
    by (simp add: ex_before_def ex_after_def)
  from uninitialised_flush_is_noop [OF unnamed no_init, of world_new ex_game] unnamed none
  show ?thesis by simp
qed

lemma ex_finished_eq:
  "ex_finished =
     (fst ex_started,
      (snd ex_started)
        \<lparr>printed := printed (snd ex_started)
            @ [''[Heatmap] Saving heatmap data...'',
               ''[Heatmap] Data saved successfully to: ''
                 @ ''$profile:Heatmap/session_2024-3-5_14-7-20_Heatmap.json''],
         json_saves :=
           [(''$profile:Heatmap/session_2024-3-5_14-7-20_Heatmap.json'', ([], [], []))]\<rparr>)"
  by (simp add: ex_finished_def ex_started_eq OnMissionFinish_def SaveHeatmapData_def
      JsonSaveFile_def Print_def snapshot_new)

text \<open>
  Claim C2, as the code has it. \<^verbatim>\<open>OnMissionFinish\<close> flushes once whatever the value of
  the autosave timer: when a session file name is set, it makes exactly one call of
  \<^verbatim>\<open>JsonSaveFile\<close> with the whole aggregate, and it leaves the timer and the file name as
  they are. The mission keeps no record of having finished: a tick after
  \<^verbatim>\<open>OnMissionFinish\<close> changes the mission exactly as the same tick would have done
  before it, and saves again when the timer reaches the interval.
\<close>

theorem finish_flushes_and_ticks_continue:
  "(m_SessionFileName m \<noteq> [] \<longrightarrow>
      json_saves (snd (OnMissionFinish w (m, h)))
        = json_saves h @ [(m_SessionFileName m, snapshot w)])
   \<and> fst (OnMissionFinish w (m, h)) = m
   \<and> fst (OnUpdate w' t (OnMissionFinish w (m, h))) = fst (OnUpdate w' t (m, h))
   \<and> (m_SessionFileName m \<noteq> []
        \<and> float_ge (float_add (m_AutosaveTimer m) t) AUTOSAVE_INTERVAL \<longrightarrow>
        json_saves (snd (OnUpdate w' t (OnMissionFinish w (m, h))))
          = json_saves h @ [(m_SessionFileName m, snapshot w), (m_SessionFileName m, snapshot w')])"
proof (intro conjI impI)
  assume "m_SessionFileName m \<noteq> []"
  then show "json_saves (snd (OnMissionFinish w (m, h)))
        = json_saves h @ [(m_SessionFileName m, snapshot w)]" by (rule finish_named)
next
  show "fst (OnMissionFinish w (m, h)) = m" by (simp add: finish_keeps_mission)
next
  obtain h' where f: "OnMissionFinish w (m, h) = (m, h')"
    using finish_keeps_mission [of w "(m, h)"] by (cases "OnMissionFinish w (m, h)") simp
  show "fst (OnUpdate w' t (OnMissionFinish w (m, h))) = fst (OnUpdate w' t (m, h))"
    unfolding f by (simp add: OnUpdate_def Let_def SaveHeatmapData_def)
next
  assume a: "m_SessionFileName m \<noteq> []
        \<and> float_ge (float_add (m_AutosaveTimer m) t) AUTOSAVE_INTERVAL"
  obtain h' where f: "OnMissionFinish w (m, h) = (m, h')"
    using finish_keeps_mission [of w "(m, h)"] by (cases "OnMissionFinish w (m, h)") simp
  from a finish_named [of m w h] have h': "json_saves h' = json_saves h @ [(m_SessionFileName m, snapshot w)]"
    by (simp add: f)
  from a have "OnUpdate w' t (m, h') =
     (m\<lparr>m_AutosaveTimer := Finite 0\<rparr>,
      h'\<lparr>json_saves := json_saves h' @ [(m_SessionFileName m, snapshot w')],
        printed := printed h' @ [''[Heatmap] Auto-saved heatmap data'']\<rparr>)"
    by (simp add: update_saves)
  then show "json_saves (snd (OnUpdate w' t (OnMissionFinish w (m, h))))
          = json_saves h @ [(m_SessionFileName m, snapshot w), (m_SessionFileName m, snapshot w')]"
    by (simp add: f h')
qed

theorem finish_flushes_and_ticks_continue_witness:
  "m_SessionFileName (fst ex_started) \<noteq> []
   \<and> float_ge (float_add (m_AutosaveTimer (fst ex_started)) (Finite 120)) AUTOSAVE_INTERVAL
   \<and> json_saves (snd (OnMissionFinish world_new ex_started))
       = [(''$profile:Heatmap/session_2024-3-5_14-7-20_Heatmap.json'', ([], [], []))]
   \<and> json_saves (snd (OnUpdate world_new (Finite 120) (OnMissionFinish world_new ex_started)))
       = [(''$profile:Heatmap/session_2024-3-5_14-7-20_Heatmap.json'', ([], [], [])),
          (''$profile:Heatmap/session_2024-3-5_14-7-20_Heatmap.json'', ([], [], []))]"
proof -
  have named: "m_SessionFileName (fst ex_started) \<noteq> []"
    and reach: "float_ge (float_add (m_AutosaveTimer (fst ex_started)) (Finite 120))
                  AUTOSAVE_INTERVAL"
    by (simp_all add: ex_started_eq AUTOSAVE_INTERVAL_def round_float_numerals)
  have name: "m_SessionFileName (fst ex_started)
                = ''$profile:Heatmap/session_2024-3-5_14-7-20_Heatmap.json''"
    and none: "json_saves (snd ex_started) = []"
    by (simp_all add: ex_started_eq)
  note main = finish_flushes_and_ticks_continue
    [of "fst ex_started" world_new "snd ex_started" world_new "Finite 120"]
  from main [THEN conjunct1] named
  have one: "json_saves (snd (OnMissionFinish world_new ex_started))
       = [(''$profile:Heatmap/session_2024-3-5_14-7-20_Heatmap.json'', ([], [], []))]"
    by (simp add: name none snapshot_new)
  from main [THEN conjunct2, THEN conjunct2, THEN conjunct2] named reach
  have two: "json_saves (snd (OnUpdate world_new (Finite 120) (OnMissionFinish world_new ex_started)))
       = [(''$profile:Heatmap/session_2024-3-5_14-7-20_Heatmap.json'', ([], [], [])),
          (''$profile:Heatmap/session_2024-3-5_14-7-20_Heatmap.json'', ([], [], []))]"
    by (simp add: name none snapshot_new)
  from named reach one two show ?thesis by simp
qed

text \<open>
  The claim as written fails on its second half: after \<^verbatim>\<open>OnInit\<close> and
  \<^verbatim>\<open>OnMissionFinish\<close> one save has been made; a tick of 120 seconds then changes the
  state and makes a second save, and a tick of 50 seconds moves the timer to 50.
\<close>

theorem tick_after_finish_still_saves:
  "length (json_saves (snd ex_finished)) = 1
   \<and> OnUpdate world_new (Finite 120) ex_finished \<noteq> ex_finished
   \<and> length (json_saves (snd (OnUpdate world_new (Finite 120) ex_finished))) = 2
   \<and> m_AutosaveTimer (fst (OnUpdate world_new (Finite 50) ex_finished)) = Finite 50"
  by (simp add: ex_finished_eq ex_started_eq OnUpdate_def SaveHeatmapData_def JsonSaveFile_def
      Print_def AUTOSAVE_INTERVAL_def Let_def round_float_numerals)

text \<open>
  Claim C4, as the code has it. \<^verbatim>\<open>OnInit\<close> sets the session file name to the profile
  folder followed by \<^verbatim>\<open>/session_y-m-d_h-min-s_Heatmap.json\<close>, every component written in
  decimal without padding; year, month, day, hour and minute are those of \<^verbatim>\<open>GetDate\<close>,
  and the last component is the game time in milliseconds modulo 60. A mission started
  on 2024-03-05 at 14:07 whose game time modulo 60 is 33 gets
  \<^verbatim>\<open>session_2024-3-5_14-7-33_Heatmap.json\<close> in the profile folder. No callback other
  than \<^verbatim>\<open>OnInit\<close> changes the name.
\<close>

theorem session_file_name_format:
  "(GetDate env = (year, month, day, hour, minute) \<longrightarrow>
      m_SessionFileName (fst (OnInit env (m, h)))
        = HEATMAP_PROFILE_FOLDER @ ''/session_'' @ int_string year @ ''-'' @ int_string month
            @ ''-'' @ int_string day @ ''_'' @ int_string hour @ ''-'' @ int_string minute
            @ ''-'' @ int_string (GetTime env smod 60) @ ''_Heatmap.json'')
   \<and> (GetDate env = (2024, 3, 5, 14, 7) \<and> GetTime env smod 60 = 33 \<longrightarrow>
        m_SessionFileName (fst (OnInit env (m, h)))
          = ''$profile:Heatmap/session_2024-3-5_14-7-33_Heatmap.json'')
   \<and> ((\<forall>c \<in> set cs. \<not> is_Init c) \<longrightarrow>
        m_SessionFileName (srv_mission (run g cs s)) = m_SessionFileName (srv_mission s))"
proof (intro conjI impI)
  assume "GetDate env = (year, month, day, hour, minute)"
  then show "m_SessionFileName (fst (OnInit env (m, h)))
        = HEATMAP_PROFILE_FOLDER @ ''/session_'' @ int_string year @ ''-'' @ int_string month
            @ ''-'' @ int_string day @ ''_'' @ int_string hour @ ''-'' @ int_string minute
            @ ''-'' @ int_string (GetTime env smod 60) @ ''_Heatmap.json''"
    by (simp add: init_name session_file_name_def Let_def)
next
  assume "GetDate env = (2024, 3, 5, 14, 7) \<and> GetTime env smod 60 = 33"
  then show "m_SessionFileName (fst (OnInit env (m, h)))
          = ''$profile:Heatmap/session_2024-3-5_14-7-33_Heatmap.json''"
    by (simp add: init_name session_file_name_def Let_def HEATMAP_PROFILE_FOLDER_def
        int_string_def nat_string.simps digit_char_def)
next
  assume "\<forall>c \<in> set cs. \<not> is_Init c"
  then show "m_SessionFileName (srv_mission (run g cs s)) = m_SessionFileName (srv_mission s)"
    by (rule run_mission_name)
qed

theorem session_file_name_format_witness:
  "GetDate (ex_init 153) = (2024, 3, 5, 14, 7)
   \<and> GetTime (ex_init 153) smod 60 = 33
   \<and> m_SessionFileName (fst (OnInit (ex_init 153) (MissionServer_new, ex_host True)))
       = ''$profile:Heatmap/session_2024-3-5_14-7-33_Heatmap.json''
   \<and> m_SessionFileName (srv_mission (run ex_game (ex_before @ ex_after)
        (on_mission (OnInit (ex_init 153)) (server_new (ex_host True)))))
       = ''$profile:Heatmap/session_2024-3-5_14-7-33_Heatmap.json''"
proof -
  have date: "GetDate (ex_init 153) = (2024, 3, 5, 14, 7)"
    and sec: "GetTime (ex_init 153) smod 60 = 33"
    by (simp_all add: ex_init_def signed_modulo_int_def)
  have no_init: "\<forall>c \<in> set (ex_before @ ex_after). \<not> is_Init c"
    by (simp add: ex_before_def ex_after_def)
  note main = session_file_name_format [of "ex_init 153" 2024 3 5 14 7 MissionServer_new "ex_host True"
      "ex_before @ ex_after" ex_game
      "on_mission (OnInit (ex_init 153)) (server_new (ex_host True))"]
  from main [THEN conjunct2, THEN conjunct1] date sec
  have name: "m_SessionFileName (fst (OnInit (ex_init 153) (MissionServer_new, ex_host True)))
       = ''$profile:Heatmap/session_2024-3-5_14-7-33_Heatmap.json''" by simp
  from main [THEN conjunct2, THEN conjunct2] no_init
  have "m_SessionFileName (srv_mission (run ex_game (ex_before @ ex_after)
        (on_mission (OnInit (ex_init 153)) (server_new (ex_host True)))))
       = m_SessionFileName
           (srv_mission (on_mission (OnInit (ex_init 153)) (server_new (ex_host True))))"
    by simp
  also have "\<dots> = m_SessionFileName (fst (OnInit (ex_init 153) (MissionServer_new, ex_host True)))"
    by (simp add: on_mission_simps server_new_def)
  finally show ?thesis using date sec name by simp
qed

text \<open>
  The claim as written ties the last component to the calendar second. \<^verbatim>\<open>GetDate\<close>
  reports no seconds; a mission started on 2024-03-05 in the minute 14:07, five
  seconds (5000 milliseconds) into the game, gets the component 20, whatever the
  calendar second.
\<close>

theorem session_second_is_not_calendar_second:
  "GetDate (ex_init 5000) = (2024, 3, 5, 14, 7)
   \<and> m_SessionFileName (fst (OnInit (ex_init 5000) (MissionServer_new, ex_host True)))
       = ''$profile:Heatmap/session_2024-3-5_14-7-20_Heatmap.json''
   \<and> m_SessionFileName (fst (OnInit (ex_init 5000) (MissionServer_new, ex_host True)))
       \<noteq> ''$profile:Heatmap/session_2024-3-5_14-7-33_Heatmap.json''"
  by (simp add: init_name session_file_name_def ex_init_def HEATMAP_PROFILE_FOLDER_def
      int_string_def nat_string.simps digit_char_def signed_modulo_int_def Let_def)

lemma update_host_independent:
  assumes "printed h1 = printed h2" and "json_saves h1 = json_saves h2"
  shows "fst (OnUpdate w t (m, h1)) = fst (OnUpdate w t (m, h2))
     \<and> printed (snd (OnUpdate w t (m, h1))) = printed (snd (OnUpdate w t (m, h2)))
     \<and> json_saves (snd (OnUpdate w t (m, h1))) = json_saves (snd (OnUpdate w t (m, h2)))"
  using assms
  by (simp add: OnUpdate_def SaveHeatmapData_def JsonSaveFile_def Print_def Let_def)

lemma finish_host_independent:
  assumes "printed h1 = printed h2" and "json_saves h1 = json_saves h2"
  shows "fst (OnMissionFinish w (m, h1)) = fst (OnMissionFinish w (m, h2))
     \<and> printed (snd (OnMissionFinish w (m, h1))) = printed (snd (OnMissionFinish w (m, h2)))
     \<and> json_saves (snd (OnMissionFinish w (m, h1)))
         = json_saves (snd (OnMissionFinish w (m, h2)))"
  using assms
  by (simp add: OnMissionFinish_def SaveHeatmapData_def JsonSaveFile_def Print_def)

lemma init_host_independent:
  assumes "printed h1 = printed h2" and "json_saves h1 = json_saves h2"
  shows "fst (OnInit env (m, h1)) = fst (OnInit env (m, h2))
     \<and> printed (snd (OnInit env (m, h1))) = printed (snd (OnInit env (m, h2)))
     \<and> json_saves (snd (OnInit env (m, h1))) = json_saves (snd (OnInit env (m, h2)))"
  using assms
  by (simp add: OnInit_def MakeDirectory_def Print_def Let_def)

lemma dispatch_host_independent:
  assumes "srv_mission a = srv_mission b" and "srv_agents a = srv_agents b"
    and "srv_world a = srv_world b"
    and "printed (srv_host a) = printed (srv_host b)"
    and "json_saves (srv_host a) = json_saves (srv_host b)"
  shows "srv_mission (dispatch g c a) = srv_mission (dispatch g c b)
     \<and> srv_agents (dispatch g c a) = srv_agents (dispatch g c b)
     \<and> srv_world (dispatch g c a) = srv_world (dispatch g c b)
     \<and> printed (srv_host (dispatch g c a)) = printed (srv_host (dispatch g c b))
     \<and> json_saves (srv_host (dispatch g c a)) = json_saves (srv_host (dispatch g c b))"
proof (cases c)
  case (Init env)
  from init_host_independent [OF assms(4,5), of env "srv_mission b"] assms
  show ?thesis by (simp add: Init on_mission_simps)
next
  case (Update t)
  from update_host_independent [OF assms(4,5), of "srv_world b" t "srv_mission b"] assms
  show ?thesis by (simp add: Update on_mission_simps)
next
  case Finish
  from finish_host_independent [OF assms(4,5), of "srv_world b" "srv_mission b"] assms
  show ?thesis by (simp add: Finish on_mission_simps)
qed (use assms in \<open>simp_all add: on_agent_simps\<close>)

lemma run_host_independent:
  assumes "srv_mission a = srv_mission b" and "srv_agents a = srv_agents b"
    and "srv_world a = srv_world b"
    and "printed (srv_host a) = printed (srv_host b)"
    and "json_saves (srv_host a) = json_saves (srv_host b)"
  shows "srv_mission (run g cs a) = srv_mission (run g cs b)
     \<and> srv_agents (run g cs a) = srv_agents (run g cs b)
     \<and> srv_world (run g cs a) = srv_world (run g cs b)
     \<and> printed (srv_host (run g cs a)) = printed (srv_host (run g cs b))
     \<and> json_saves (srv_host (run g cs a)) = json_saves (srv_host (run g cs b))"
  using assms
proof (induction cs arbitrary: a b)
  case Nil
  then show ?case by simp
next
  case (Cons c cs)
  from dispatch_host_independent [OF Cons.prems, of g c]
  have "srv_mission (dispatch g c a) = srv_mission (dispatch g c b)"
    "srv_agents (dispatch g c a) = srv_agents (dispatch g c b)"
    "srv_world (dispatch g c a) = srv_world (dispatch g c b)"
    "printed (srv_host (dispatch g c a)) = printed (srv_host (dispatch g c b))"
    "json_saves (srv_host (dispatch g c a)) = json_saves (srv_host (dispatch g c b))"
    by simp_all
  from Cons.IH [OF this] show ?case by simp
qed

text \<open>
  Claim C5, as the code has it. \<^verbatim>\<open>OnInit\<close> drops the result of \<^verbatim>\<open>MakeDirectory\<close>. Run
  any sequence of callbacks on two servers that differ only in whether the host is able
  to create directories: the missions, the printed lines, the calls of \<^verbatim>\<open>JsonSaveFile\<close>,
  the agents and the aggregate are the same at the end. On any host \<^verbatim>\<open>OnInit\<close> prints
  its two lines and nothing else, and \<^verbatim>\<open>OnMissionFinish\<close> after it makes its call of
  \<^verbatim>\<open>JsonSaveFile\<close> with the session file name.
\<close>

theorem failed_directory_creation_is_ignored:
  "srv_mission (run g cs (server_new (h\<lparr>can_create_dirs := False\<rparr>)))
     = srv_mission (run g cs (server_new (h\<lparr>can_create_dirs := True\<rparr>)))
   \<and> printed (srv_host (run g cs (server_new (h\<lparr>can_create_dirs := False\<rparr>))))
     = printed (srv_host (run g cs (server_new (h\<lparr>can_create_dirs := True\<rparr>))))
   \<and> json_saves (srv_host (run g cs (server_new (h\<lparr>can_create_dirs := False\<rparr>))))
     = json_saves (srv_host (run g cs (server_new (h\<lparr>can_create_dirs := True\<rparr>))))
   \<and> srv_agents (run g cs (server_new (h\<lparr>can_create_dirs := False\<rparr>)))
     = srv_agents (run g cs (server_new (h\<lparr>can_create_dirs := True\<rparr>)))
   \<and> srv_world (run g cs (server_new (h\<lparr>can_create_dirs := False\<rparr>)))
     = srv_world (run g cs (server_new (h\<lparr>can_create_dirs := True\<rparr>)))
   \<and> printed (snd (OnInit env (m, h)))
       = printed h @ [''[Heatmap] Initialized - Session file: '' @ session_file_name env,
                      ''[Heatmap] Autosaving every '' @ float_to_string env AUTOSAVE_INTERVAL
                        @ '' seconds'']
   \<and> json_saves (snd (OnMissionFinish w (OnInit env (m, h))))
       = json_saves h @ [(session_file_name env, snapshot w)]"
proof -
  let ?a = "server_new (h\<lparr>can_create_dirs := False\<rparr>)"
  let ?b = "server_new (h\<lparr>can_create_dirs := True\<rparr>)"
  have "srv_mission ?a = srv_mission ?b" "srv_agents ?a = srv_agents ?b"
    "srv_world ?a = srv_world ?b" "printed (srv_host ?a) = printed (srv_host ?b)"
    "json_saves (srv_host ?a) = json_saves (srv_host ?b)"
    by (simp_all add: server_new_def)
  note same = run_host_independent [OF this, of g cs]
  obtain m' h' where i: "OnInit env (m, h) = (m', h')" by (cases "OnInit env (m, h)")
  from init_name [of env "(m, h)"] init_keeps_saves [of env "(m, h)"]
  have "m_SessionFileName m' = session_file_name env" and "json_saves h' = json_saves h"
    by (simp_all add: i)
  with finish_named [of m' w h'] session_file_name_nonempty [of env]
  have "json_saves (snd (OnMissionFinish w (OnInit env (m, h))))
       = json_saves h @ [(session_file_name env, snapshot w)]"
    by (simp add: i)
  with same init_prints [of env m h] show ?thesis by simp
qed

text \<open>
  The claim as written fails: on a host where the folder is missing and cannot be
  created, the folder is still missing after \<^verbatim>\<open>OnInit\<close>, the printed lines are the two
  ordinary ones (no warning), and the next autosave calls \<^verbatim>\<open>JsonSaveFile\<close>.
\<close>

theorem writes_attempted_without_directory:
  "\<not> FileExist HEATMAP_PROFILE_FOLDER (ex_host False)
   \<and> \<not> FileExist HEATMAP_PROFILE_FOLDER
         (snd (OnInit (ex_init 5000) (MissionServer_new, ex_host False)))
   \<and> printed (snd (OnInit (ex_init 5000) (MissionServer_new, ex_host False)))
       = [''[Heatmap] Initialized - Session file: ''
            @ ''$profile:Heatmap/session_2024-3-5_14-7-20_Heatmap.json'',
          ''[Heatmap] Autosaving every 120 seconds'']
   \<and> json_saves (snd (OnUpdate world_new (Finite 120)
         (OnInit (ex_init 5000) (MissionServer_new, ex_host False))))
       = [(''$profile:Heatmap/session_2024-3-5_14-7-20_Heatmap.json'', ([], [], []))]"
  by (simp add: OnInit_def ex_init_def ex_host_def MissionServer_new_def
      FileExist_def MakeDirectory_def Print_def session_file_name_def HEATMAP_PROFILE_FOLDER_def
      int_string_def nat_string.simps digit_char_def signed_modulo_int_def Let_def
      OnUpdate_def SaveHeatmapData_def JsonSaveFile_def AUTOSAVE_INTERVAL_def snapshot_new
      round_float_numerals)

end
